theory Spec2Isabelle
  imports Complex_Main "HOL-Library.AList" "HOL-Library.Sublist"
begin

section \<open>JavaScript strings\<close>

text \<open>
  A JavaScript string is a sequence of UTF-16 code units. The services scan the
  completion text code unit by code unit (\<^verbatim>\<open>indexOf\<close>, \<^verbatim>\<open>substring\<close>, regular
  expressions without the \<^verbatim>\<open>u\<close> flag), so a string is modelled as the list of its
  code units. \<open>js\<close> turns an ASCII literal into that list.
\<close>

type_synonym jstring = "nat list"

definition js :: "string \<Rightarrow> jstring" where
  "js s = map of_char s"

text \<open>
  The code units matched by \<^verbatim>\<open>\s\<close> and removed by \<^verbatim>\<open>String.prototype.trim\<close>:
  WhiteSpace and LineTerminator of ECMAScript (TAB, LF, VT, FF, CR, SP, NBSP, U+1680,
  U+2000 to U+200A, U+2028, U+2029, U+202F, U+205F, U+3000, U+FEFF).
\<close>

definition is_space :: "nat \<Rightarrow> bool" where
  "is_space c \<longleftrightarrow>
     c \<in> {9, 10, 11, 12, 13, 32, 160, 5760} \<or> (8192 \<le> c \<and> c \<le> 8202) \<or>
     c \<in> {8232, 8233, 8239, 8287, 12288, 65279}"

definition trim :: "jstring \<Rightarrow> jstring" where
  "trim s = rev (dropWhile is_space (rev (dropWhile is_space s)))"

text \<open>\<^verbatim>\<open>s.indexOf(c)\<close> and \<^verbatim>\<open>s.lastIndexOf(c)\<close> for a one-character \<open>c\<close>: -1 when absent.\<close>

definition indexOf :: "jstring \<Rightarrow> nat \<Rightarrow> int" where
  "indexOf s c = (if c \<in> set s then int (length (takeWhile (\<lambda>x. x \<noteq> c) s)) else - 1)"

definition lastIndexOf :: "jstring \<Rightarrow> nat \<Rightarrow> int" where
  "lastIndexOf s c =
     (if c \<in> set s then int (length s) - 1 - int (length (takeWhile (\<lambda>x. x \<noteq> c) (rev s)))
      else - 1)"

text \<open>\<^verbatim>\<open>s.substring(a, b)\<close>: both indices are clamped to the string and swapped if needed.\<close>

definition substring :: "jstring \<Rightarrow> int \<Rightarrow> int \<Rightarrow> jstring" where
  "substring s a b =
     (let n = int (length s);
          a' = min (max a 0) n;
          b' = min (max b 0) n;
          lo = min a' b';
          hi = max a' b'
      in take (nat (hi - lo)) (drop (nat lo) s))"

subsection \<open>The regular expressions of cleanJson\<close>

text \<open>
  The two patterns of \<^verbatim>\<open>cleanJson\<close> are built from literal characters, the greedy
  \<^verbatim>\<open>\s*\<close> and the lazy capturing group \<^verbatim>\<open>([\s\S]*?)\<close>. \<open>rx_match\<close> is the backtracking
  matcher for a sequence of such items, anchored at the start of its input: the greedy
  star first tries to take one more space and falls back to taking none, the lazy group
  first tries the rest of the pattern and falls back to taking one more character. It
  returns the text captured by the group.
\<close>

datatype rx = Lit nat | Spaces | LazyAny

fun rx_match :: "rx list \<Rightarrow> jstring \<Rightarrow> jstring \<Rightarrow> jstring option" where
  "rx_match [] g s = Some g"
| "rx_match (Lit c # p) g [] = None"
| "rx_match (Lit c # p) g (x # s) = (if x = c then rx_match p g s else None)"
| "rx_match (Spaces # p) g [] = rx_match p g []"
| "rx_match (Spaces # p) g (x # s) =
     (if is_space x
      then (case rx_match (Spaces # p) g s of Some r \<Rightarrow> Some r | None \<Rightarrow> rx_match p g (x # s))
      else rx_match p g (x # s))"
| "rx_match (LazyAny # p) g [] = rx_match p g []"
| "rx_match (LazyAny # p) g (x # s) =
     (case rx_match p g (x # s) of Some r \<Rightarrow> Some r | None \<Rightarrow> rx_match (LazyAny # p) (g @ [x]) s)"

text \<open>\<^verbatim>\<open>text.match(re)\<close> without the \<^verbatim>\<open>g\<close> flag: the leftmost start position that matches;
  the result is capture group 1 (\<^verbatim>\<open>match[1]\<close>), or \<open>None\<close> for \<^verbatim>\<open>null\<close>.\<close>

fun rx_search :: "rx list \<Rightarrow> jstring \<Rightarrow> jstring option" where
  "rx_search p [] = rx_match p [] []"
| "rx_search p (x # s) =
     (case rx_match p [] (x # s) of Some g \<Rightarrow> Some g | None \<Rightarrow> rx_search p s)"

definition fence :: jstring where
  "fence = js ''```''"

definition fence_json :: jstring where
  "fence_json = js ''```json''"

text \<open>\<^verbatim>\<open>/```json\s*([\s\S]*?)\s*```/\<close> and \<^verbatim>\<open>/```\s*([\s\S]*?)\s*```/\<close>.\<close>

definition fenced_rx :: "jstring \<Rightarrow> rx list" where
  "fenced_rx opener = map Lit opener @ [Spaces, LazyAny, Spaces] @ map Lit fence"

text \<open>\<^verbatim>\<open>s.replace(/pat/g, '')\<close> for a literal pattern: every occurrence, left to right,
  without overlap.\<close>

fun remove_all :: "jstring \<Rightarrow> jstring \<Rightarrow> jstring" where
  "remove_all pat [] = []"
| "remove_all pat (x # xs) =
     (if pat \<noteq> [] \<and> prefix pat (x # xs)
      then remove_all pat (drop (length pat) (x # xs))
      else x # remove_all pat xs)"

subsection \<open>cleanJson\<close>

text \<open>The helper of frontend/services/geminiService.ts (the same text is in
  services/geminiService.ts of the frontend and in the unnamed service module).\<close>

definition cleanJson :: "jstring \<Rightarrow> jstring" where
  "cleanJson text =
     (case (case rx_search (fenced_rx fence_json) text of
              Some g \<Rightarrow> Some g
            | None \<Rightarrow> rx_search (fenced_rx fence) text) of
        Some g \<Rightarrow> trim g
      | None \<Rightarrow>
          (let firstBracket = indexOf text 91;
               lastBracket = lastIndexOf text 93
           in if firstBracket \<noteq> - 1 \<and> lastBracket \<noteq> - 1 \<and> lastBracket > firstBracket
              then substring text firstBracket (lastBracket + 1)
              else
                (let firstBrace = indexOf text 123;
                     lastBrace = lastIndexOf text 125
                 in if firstBrace \<noteq> - 1 \<and> lastBrace \<noteq> - 1 \<and> lastBrace > firstBrace
                    then substring text firstBrace (lastBrace + 1)
                    else trim (remove_all fence (remove_all fence_json text)))))"

text \<open>The helper of backend/api.ts, which only strips the fence markers.\<close>

definition cleanJson_backend :: "jstring \<Rightarrow> jstring" where
  "cleanJson_backend text = trim (remove_all fence (remove_all fence_json text))"

section \<open>JavaScript values\<close>

text \<open>
  The values the services handle are what \<^verbatim>\<open>JSON.parse\<close> returns and what the
  application keeps in its state: \<^verbatim>\<open>undefined\<close>, \<^verbatim>\<open>null\<close>, booleans, numbers,
  strings, arrays and plain objects. An object is the list of its own properties in
  insertion order. An array has its elements and, like any object, the named properties
  that were written onto it. Numbers are kept as exact rationals; the services never
  compute with them.
\<close>

datatype jsval =
    JUndefined
  | JNull
  | JBool bool
  | JNum rat
  | JStr jstring
  | JArr "jsval list" "(jstring \<times> jsval) list"
  | JObj "(jstring \<times> jsval) list"

text \<open>ToBoolean, as applied by \<^verbatim>\<open>if (x)\<close>, \<^verbatim>\<open>!x\<close> and \<^verbatim>\<open>x || y\<close>.\<close>

fun truthy :: "jsval \<Rightarrow> bool" where
  "truthy JUndefined = False"
| "truthy JNull = False"
| "truthy (JBool b) = b"
| "truthy (JNum n) = (n \<noteq> 0)"
| "truthy (JStr s) = (s \<noteq> [])"
| "truthy (JArr xs ps) = True"
| "truthy (JObj ps) = True"

fun is_primitive :: "jsval \<Rightarrow> bool" where
  "is_primitive (JArr xs ps) = False"
| "is_primitive (JObj ps) = False"
| "is_primitive v = True"

text \<open>
  \<^verbatim>\<open>a === b\<close>, and the key comparison of a \<^verbatim>\<open>Map\<close>. Primitives are compared by value.
  Arrays and objects are compared by identity; every comparison in the services has a
  value parsed from the completion text on one side and a value of the caller's state on
  the other, and these are never the same allocation.
\<close>

definition strict_eq :: "jsval \<Rightarrow> jsval \<Rightarrow> bool" where
  "strict_eq a b \<longleftrightarrow> is_primitive a \<and> a = b"

text \<open>What a service throws or rejects with.\<close>

datatype error =
    AIRejected \<comment> \<open>the awaited \<^verbatim>\<open>generateContent\<close> call rejected\<close>
  | NoResponse \<comment> \<open>\<^verbatim>\<open>new Error("No response from AI")\<close>\<close>
  | FailedToParse \<comment> \<open>\<^verbatim>\<open>new Error("Failed to parse AI response")\<close>\<close>
  | SyntaxError \<comment> \<open>thrown by \<^verbatim>\<open>JSON.parse\<close>\<close>
  | TypeError \<comment> \<open>a property of \<^verbatim>\<open>null\<close> or \<^verbatim>\<open>undefined\<close>, a call of a non-function, a write to a primitive\<close>
  | ArrayIndexWrite \<comment> \<open>\<^verbatim>\<open>Object.assign\<close> onto an array from a source with an index or \<^verbatim>\<open>length\<close> key: not followed by this model\<close>

definition bindE :: "error + 'a \<Rightarrow> ('a \<Rightarrow> error + 'b) \<Rightarrow> error + 'b" where
  "bindE m f = (case m of Inl e \<Rightarrow> Inl e | Inr a \<Rightarrow> f a)"

fun mapE :: "('a \<Rightarrow> error + 'b) \<Rightarrow> 'a list \<Rightarrow> error + 'b list" where
  "mapE f [] = Inr []"
| "mapE f (x # xs) = bindE (f x) (\<lambda>y. bindE (mapE f xs) (\<lambda>ys. Inr (y # ys)))"

fun foldE :: "('s \<Rightarrow> 'a \<Rightarrow> error + 's) \<Rightarrow> 's \<Rightarrow> 'a list \<Rightarrow> error + 's" where
  "foldE f s [] = Inr s"
| "foldE f s (x # xs) = bindE (f s x) (\<lambda>s'. foldE f s' xs)"

text \<open>
  The own enumerable data property \<open>k\<close> of a value, \<^verbatim>\<open>undefined\<close> when there is none.
  The fields of an activity or an itinerary are these.
\<close>

definition field :: "jsval \<Rightarrow> jstring \<Rightarrow> jsval" where
  "field v k =
     (case v of
        JObj ps \<Rightarrow> (case map_of ps k of Some x \<Rightarrow> x | None \<Rightarrow> JUndefined)
      | JArr xs ps \<Rightarrow> (case map_of ps k of Some x \<Rightarrow> x | None \<Rightarrow> JUndefined)
      | _ \<Rightarrow> JUndefined)"

text \<open>
  \<^verbatim>\<open>v.k\<close> for the property names the services read (none of them is \<^verbatim>\<open>length\<close>, an
  index or inherited from a prototype): a TypeError on \<^verbatim>\<open>null\<close> and \<^verbatim>\<open>undefined\<close>,
  the own property otherwise.
\<close>

definition get :: "jsval \<Rightarrow> jstring \<Rightarrow> error + jsval" where
  "get v k =
     (case v of
        JUndefined \<Rightarrow> Inl TypeError
      | JNull \<Rightarrow> Inl TypeError
      | _ \<Rightarrow> Inr (field v k))"

fun decimal :: "nat \<Rightarrow> jstring" where
  "decimal n = (if n < 10 then [48 + n] else decimal (n div 10) @ [48 + n mod 10])"

definition digits_val :: "jstring \<Rightarrow> nat" where
  "digits_val ds = foldl (\<lambda>a d. 10 * a + (d - 48)) 0 ds"

text \<open>The property names an array treats as element positions or as its length.\<close>

definition array_key :: "jstring \<Rightarrow> bool" where
  "array_key k \<longleftrightarrow>
     k = js ''length'' \<or>
     (k \<noteq> [] \<and> list_all (\<lambda>c. 48 \<le> c \<and> c \<le> 57) k \<and> decimal (digits_val k) = k \<and>
      digits_val k < 4294967295)"

text \<open>
  \<^verbatim>\<open>v.k = x\<close> in strict mode (the services are ES modules): the property is updated in
  place or appended; a write to \<^verbatim>\<open>null\<close>, \<^verbatim>\<open>undefined\<close> or a primitive throws.
\<close>

definition put :: "jsval \<Rightarrow> jstring \<Rightarrow> jsval \<Rightarrow> error + jsval" where
  "put v k x =
     (case v of
        JObj ps \<Rightarrow> Inr (JObj (AList.update k x ps))
      | JArr xs ps \<Rightarrow> if array_key k then Inl ArrayIndexWrite else Inr (JArr xs (AList.update k x ps))
      | _ \<Rightarrow> Inl TypeError)"

text \<open>The own enumerable properties copied by \<^verbatim>\<open>Object.assign\<close> and by \<^verbatim>\<open>{...v}\<close>:
  those of an object, the indexed elements of an array or string, none otherwise.\<close>

definition own_props :: "jsval \<Rightarrow> (jstring \<times> jsval) list" where
  "own_props v =
     (case v of
        JObj ps \<Rightarrow> ps
      | JArr xs qs \<Rightarrow> zip (map decimal [0..<length xs]) xs @ qs
      | JStr s \<Rightarrow> zip (map decimal [0..<length s]) (map (\<lambda>c. JStr [c]) s)
      | _ \<Rightarrow> [])"

text \<open>
  One step of \<^verbatim>\<open>Object.assign\<close>: \<^verbatim>\<open>target[k] = x\<close> for a name \<open>k\<close> that comes from the
  source. The name \<^verbatim>\<open>__proto__\<close> is special when the target does not own it: the
  assignment then runs the setter inherited from \<^verbatim>\<open>Object.prototype\<close> and creates no
  own property. (The setter makes \<open>x\<close> the prototype of the target when \<open>x\<close> is an
  object or \<^verbatim>\<open>null\<close>; a \<open>jsval\<close> has own properties only, so the target is left as it
  is.) An own \<^verbatim>\<open>__proto__\<close>, as \<^verbatim>\<open>JSON.parse\<close> creates it, is written like any other
  property.
\<close>

definition set_property :: "jsval \<Rightarrow> jstring \<times> jsval \<Rightarrow> error + jsval" where
  "set_property target p =
     (if fst p = js ''__proto__'' \<and> fst p \<notin> set (map fst (own_props target))
      then (case target of
              JObj ps \<Rightarrow> Inr target
            | JArr xs ps \<Rightarrow> Inr target
            | _ \<Rightarrow> Inl TypeError)
      else put target (fst p) (snd p))"

text \<open>\<^verbatim>\<open>Object.assign(target, source)\<close>: each own property of the source is set on the
  target, in order; \<^verbatim>\<open>null\<close> and \<^verbatim>\<open>undefined\<close> are no targets. (The services call it
  with an activity they have just written to, an object or an array.)\<close>

definition object_assign :: "jsval \<Rightarrow> jsval \<Rightarrow> error + jsval" where
  "object_assign target source =
     (if target = JUndefined \<or> target = JNull then Inl TypeError
      else foldE set_property target (own_props source))"

text \<open>\<^verbatim>\<open>{...v}\<close>: a fresh object with the own properties of \<open>v\<close>.\<close>

definition spread :: "jsval \<Rightarrow> jsval" where
  "spread v = JObj (own_props v)"

section \<open>JSON.parse\<close>

text \<open>
  \<^verbatim>\<open>JSON.parse\<close> belongs to the JavaScript runtime. It is modelled after the JSON
  grammar (ECMA-404) in two passes: a lexer that reads the text one code unit at a time,
  and a pushdown automaton over the tokens. \<open>None\<close> stands for the SyntaxError.
\<close>

datatype token = TLBrace | TRBrace | TLBrack | TRBrack | TColon | TComma | TScalar jsval

abbreviation is_digit :: "nat \<Rightarrow> bool" where
  "is_digit c \<equiv> 48 \<le> c \<and> c \<le> 57"

text \<open>A number lexeme: \<^verbatim>\<open>-? (0 | [1-9][0-9]*) (. [0-9]+)? ([eE] [+-]? [0-9]+)?\<close>.\<close>

definition number_of :: "jstring \<Rightarrow> rat option" where
  "number_of lx =
     (let (neg, r0) = (case lx of c # r \<Rightarrow> if c = 45 then (True, r) else (False, lx) | [] \<Rightarrow> (False, lx));
          ip = takeWhile is_digit r0;
          r1 = dropWhile is_digit r0;
          (fok, fp, r2) =
            (case r1 of
               c # r \<Rightarrow>
                 if c = 46 then (takeWhile is_digit r \<noteq> [], takeWhile is_digit r, dropWhile is_digit r)
                 else (True, [], r1)
             | [] \<Rightarrow> (True, [], r1));
          (eneg, r3) =
            (case r2 of
               c # r \<Rightarrow>
                 if c = 101 \<or> c = 69
                 then (case r of
                         d # r' \<Rightarrow> if d = 45 then (True, r') else if d = 43 then (False, r') else (False, r)
                       | [] \<Rightarrow> (False, r))
                 else (False, [])
             | [] \<Rightarrow> (False, []));
          eok = (case r2 of
                   c # r \<Rightarrow> (c = 101 \<or> c = 69) \<and> r3 \<noteq> [] \<and> list_all is_digit r3
                 | [] \<Rightarrow> True);
          mant = of_nat (digits_val (ip @ fp)) / 10 ^ length fp;
          scaled = (if eneg then mant / 10 ^ digits_val r3 else mant * 10 ^ digits_val r3)
      in if ip \<noteq> [] \<and> (length ip = 1 \<or> hd ip \<noteq> 48) \<and> fok \<and> eok
         then Some (if neg then - scaled else scaled)
         else None)"

definition hex_val :: "nat \<Rightarrow> nat option" where
  "hex_val c =
     (if 48 \<le> c \<and> c \<le> 57 then Some (c - 48)
      else if 97 \<le> c \<and> c \<le> 102 then Some (c - 87)
      else if 65 \<le> c \<and> c \<le> 70 then Some (c - 55)
      else None)"

text \<open>The character after a backslash: \<^verbatim>\<open>" \ / b f n r t\<close>.\<close>

definition unescape :: "nat \<Rightarrow> nat option" where
  "unescape c =
     (if c = 34 \<or> c = 92 \<or> c = 47 then Some c
      else if c = 98 then Some 8
      else if c = 102 then Some 12
      else if c = 110 then Some 10
      else if c = 114 then Some 13
      else if c = 116 then Some 9
      else None)"

datatype lexmode =
    LIdle
  | LString jstring
  | LEscape jstring
  | LUnicode jstring "nat list"
  | LNumber jstring
  | LWord jstring jsval

definition emit :: "token \<Rightarrow> token list option \<Rightarrow> token list option" where
  "emit t r = map_option ((#) t) r"

text \<open>What a code unit means between tokens.\<close>

datatype idle_action = Skip | Emit token | Enter lexmode | Reject

definition idle :: "nat \<Rightarrow> idle_action" where
  "idle c =
     (if c = 32 \<or> c = 9 \<or> c = 10 \<or> c = 13 then Skip
      else if c = 123 then Emit TLBrace
      else if c = 125 then Emit TRBrace
      else if c = 91 then Emit TLBrack
      else if c = 93 then Emit TRBrack
      else if c = 58 then Emit TColon
      else if c = 44 then Emit TComma
      else if c = 34 then Enter (LString [])
      else if c = 45 \<or> is_digit c then Enter (LNumber [c])
      else if c = 116 then Enter (LWord (js ''rue'') (JBool True))
      else if c = 102 then Enter (LWord (js ''alse'') (JBool False))
      else if c = 110 then Enter (LWord (js ''ull'') JNull)
      else Reject)"

fun lexer :: "lexmode \<Rightarrow> jstring \<Rightarrow> token list option" where
  "lexer LIdle [] = Some []"
| "lexer (LNumber lx) [] = map_option (\<lambda>n. [TScalar (JNum n)]) (number_of lx)"
| "lexer m [] = None"
| "lexer LIdle (c # cs) =
     (case idle c of
        Skip \<Rightarrow> lexer LIdle cs
      | Emit t \<Rightarrow> emit t (lexer LIdle cs)
      | Enter m \<Rightarrow> lexer m cs
      | Reject \<Rightarrow> None)"
| "lexer (LString acc) (c # cs) =
     (if c = 34 then emit (TScalar (JStr acc)) (lexer LIdle cs)
      else if c = 92 then lexer (LEscape acc) cs
      else if c < 32 then None
      else lexer (LString (acc @ [c])) cs)"
| "lexer (LEscape acc) (c # cs) =
     (if c = 117 then lexer (LUnicode acc []) cs
      else (case unescape c of
              Some d \<Rightarrow> lexer (LString (acc @ [d])) cs
            | None \<Rightarrow> None))"
| "lexer (LUnicode acc ds) (c # cs) =
     (case hex_val c of
        None \<Rightarrow> None
      | Some h \<Rightarrow>
          if length ds = 3
          then lexer (LString (acc @ [foldl (\<lambda>a d. 16 * a + d) 0 (ds @ [h])])) cs
          else lexer (LUnicode acc (ds @ [h])) cs)"
| "lexer (LNumber lx) (c # cs) =
     (if is_digit c \<or> c = 45 \<or> c = 43 \<or> c = 46 \<or> c = 101 \<or> c = 69
      then lexer (LNumber (lx @ [c])) cs
      else (case number_of lx of
              None \<Rightarrow> None
            | Some n \<Rightarrow>
                emit (TScalar (JNum n))
                  (case idle c of
                     Skip \<Rightarrow> lexer LIdle cs
                   | Emit t \<Rightarrow> emit t (lexer LIdle cs)
                   | Enter m \<Rightarrow> lexer m cs
                   | Reject \<Rightarrow> None)))"
| "lexer (LWord w v) (c # cs) =
     (case w of
        [] \<Rightarrow> None
      | x # w' \<Rightarrow>
          if c \<noteq> x then None
          else if w' = [] then emit (TScalar v) (lexer LIdle cs)
          else lexer (LWord w' v) cs)"

text \<open>
  The automaton: a stack of the containers that are open, and what may come next.
  An array frame holds its elements so far (latest first); an object frame holds its
  members so far, and the key that waits for its value. A repeated key keeps its place
  and takes the last value.
\<close>

datatype frame =
    FArr "jsval list"
  | FObj "(jstring \<times> jsval) list"
  | FKey "(jstring \<times> jsval) list" jstring

datatype expect =
    XValue \<comment> \<open>a value\<close>
  | XValueOrClose \<comment> \<open>just after \<^verbatim>\<open>[\<close>\<close>
  | XKeyOrClose \<comment> \<open>just after \<^verbatim>\<open>{\<close>\<close>
  | XKey \<comment> \<open>after a comma in an object\<close>
  | XColon
  | XNext \<comment> \<open>after a value inside a container: a comma or the closing bracket\<close>
  | XEnd jsval \<comment> \<open>the document is complete\<close>

fun complete :: "jsval \<Rightarrow> frame list \<Rightarrow> (expect \<times> frame list) option" where
  "complete v [] = Some (XEnd v, [])"
| "complete v (FArr es # st) = Some (XNext, FArr (v # es) # st)"
| "complete v (FKey ms k # st) = Some (XNext, FObj (AList.update k v ms) # st)"
| "complete v (FObj ms # st) = None"

fun step :: "expect \<Rightarrow> frame list \<Rightarrow> token \<Rightarrow> (expect \<times> frame list) option" where
  "step XValue st (TScalar v) = complete v st"
| "step XValue st TLBrack = Some (XValueOrClose, FArr [] # st)"
| "step XValue st TLBrace = Some (XKeyOrClose, FObj [] # st)"
| "step XValueOrClose st (TScalar v) = complete v st"
| "step XValueOrClose st TLBrack = Some (XValueOrClose, FArr [] # st)"
| "step XValueOrClose st TLBrace = Some (XKeyOrClose, FObj [] # st)"
| "step XValueOrClose (FArr es # st) TRBrack = complete (JArr (rev es) []) st"
| "step XKeyOrClose (FObj ms # st) (TScalar (JStr k)) = Some (XColon, FKey ms k # st)"
| "step XKeyOrClose (FObj ms # st) TRBrace = complete (JObj ms) st"
| "step XKey (FObj ms # st) (TScalar (JStr k)) = Some (XColon, FKey ms k # st)"
| "step XColon st TColon = Some (XValue, st)"
| "step XNext (FArr es # st) TComma = Some (XValue, FArr es # st)"
| "step XNext (FArr es # st) TRBrack = complete (JArr (rev es) []) st"
| "step XNext (FObj ms # st) TComma = Some (XKey, FObj ms # st)"
| "step XNext (FObj ms # st) TRBrace = complete (JObj ms) st"
| "step x st t = None"

fun run :: "expect \<Rightarrow> frame list \<Rightarrow> token list \<Rightarrow> jsval option" where
  "run (XEnd v) st [] = Some v"
| "run x st [] = None"
| "run x st (t # ts) = (case step x st t of None \<Rightarrow> None | Some (x', st') \<Rightarrow> run x' st' ts)"

definition JSON_parse :: "jstring \<Rightarrow> jsval option" where
  "JSON_parse s = (case lexer LIdle s of None \<Rightarrow> None | Some ts \<Rightarrow> run XValue [] ts)"

section \<open>The Gemini services\<close>

text \<open>
  The repository holds five copies of the service module. They differ in the points
  that the fields of \<open>variant\<close> name; everything else is the same text.
\<close>

datatype sanitizer =
    Unsanitized \<comment> \<open>\<^verbatim>\<open>JSON.parse(text)\<close>\<close>
  | FenceStripping \<comment> \<open>\<^verbatim>\<open>JSON.parse(cleanJson(text))\<close> with the helper of backend/api.ts\<close>
  | Extracting \<comment> \<open>\<^verbatim>\<open>JSON.parse(cleanJson(text))\<close> with the full helper\<close>

record variant =
  sanitizer :: sanitizer
  wraps_parse_error :: bool \<comment> \<open>generateItinerary rethrows a parse error as "Failed to parse AI response"\<close>
  guards_days :: bool \<comment> \<open>the activities are visited under \<^verbatim>\<open>if (data.days)\<close>\<close>
  keeps_trip_settings :: bool \<comment> \<open>startDate, durationDays, travelers and interests are carried\<close>
  handles_mandatory :: bool \<comment> \<open>the module knows \<^verbatim>\<open>isMandatory\<close>\<close>
  handles_transport :: bool \<comment> \<open>refineItinerary copies \<^verbatim>\<open>selectedTransport\<close>\<close>
  generates_ids :: bool \<comment> \<open>generateItinerary gives an activity without id a random one\<close>
  cleans_analysis :: bool \<comment> \<open>analyzeSocialContent parses \<^verbatim>\<open>cleanJson(text)\<close>, not \<^verbatim>\<open>text\<close>\<close>

text \<open>src/services/geminiService.ts\<close>

definition services_geminiService :: variant where
  "services_geminiService =
     \<lparr>sanitizer = Unsanitized, wraps_parse_error = False, guards_days = False,
      keeps_trip_settings = False, handles_mandatory = False, handles_transport = False,
      generates_ids = False, cleans_analysis = False\<rparr>"

text \<open>src/frontend/services/geminiService.ts, the first module (lines 1 to 323)\<close>

definition frontend_geminiService :: variant where
  "frontend_geminiService =
     \<lparr>sanitizer = Extracting, wraps_parse_error = True, guards_days = True,
      keeps_trip_settings = True, handles_mandatory = False, handles_transport = True,
      generates_ids = True, cleans_analysis = True\<rparr>"

text \<open>src/frontend/services/geminiService.ts, the second module (from line 323)\<close>

definition frontend_geminiService_2 :: variant where
  "frontend_geminiService_2 =
     \<lparr>sanitizer = Extracting, wraps_parse_error = False, guards_days = False,
      keeps_trip_settings = False, handles_mandatory = True, handles_transport = False,
      generates_ids = True, cleans_analysis = True\<rparr>"

text \<open>src/backend/api.ts\<close>

definition backend_api :: variant where
  "backend_api =
     \<lparr>sanitizer = FenceStripping, wraps_parse_error = False, guards_days = False,
      keeps_trip_settings = False, handles_mandatory = True, handles_transport = False,
      generates_ids = True, cleans_analysis = False\<rparr>"

text \<open>src/unnamed/part_003\<close>

definition unnamed_part_003 :: variant where
  "unnamed_part_003 =
     \<lparr>sanitizer = Extracting, wraps_parse_error = False, guards_days = False,
      keeps_trip_settings = False, handles_mandatory = True, handles_transport = True,
      generates_ids = True, cleans_analysis = False\<rparr>"

definition sanitized :: "variant \<Rightarrow> jstring \<Rightarrow> jstring" where
  "sanitized v text =
     (case sanitizer v of
        Unsanitized \<Rightarrow> text
      | FenceStripping \<Rightarrow> cleanJson_backend text
      | Extracting \<Rightarrow> cleanJson text)"

text \<open>
  The completion service is outside the program. What a service sees of it is the
  outcome of \<^verbatim>\<open>await ai.models.generateContent(...)\<close>: a rejection, or a response
  whose \<^verbatim>\<open>text\<close> is a string or \<^verbatim>\<open>undefined\<close>.
\<close>

datatype completion = Rejects | Resolves "jstring option"

text \<open>\<^verbatim>\<open>const text = response.text; if (!text) throw new Error("No response from AI");\<close>\<close>

definition response_text :: "completion \<Rightarrow> error + jstring" where
  "response_text c =
     (case c of
        Rejects \<Rightarrow> Inl AIRejected
      | Resolves None \<Rightarrow> Inl NoResponse
      | Resolves (Some t) \<Rightarrow> if t = [] then Inl NoResponse else Inr t)"

definition parse_json :: "jstring \<Rightarrow> error + jsval" where
  "parse_json s = (case JSON_parse s of None \<Rightarrow> Inl SyntaxError | Some v \<Rightarrow> Inr v)"

text \<open>
  \<^verbatim>\<open>data.days.forEach(day => day.activities.forEach(act => ...))\<close> with a body that
  writes to \<open>act\<close>. \<^verbatim>\<open>forEach\<close> is a function only on an array. The mutated activity
  stays where it was in its day, and the day where it was in the itinerary.
\<close>

definition update_activities :: "(jsval list \<Rightarrow> error + jsval list) \<Rightarrow> jsval \<Rightarrow> error + jsval" where
  "update_activities f day =
     bindE (get day (js ''activities'')) (\<lambda>acts.
       case acts of
         JArr as ps \<Rightarrow> bindE (f as) (\<lambda>as'. put day (js ''activities'') (JArr as' ps))
       | _ \<Rightarrow> Inl TypeError)"

definition update_days :: "(jsval list \<Rightarrow> error + jsval list) \<Rightarrow> jsval \<Rightarrow> error + jsval" where
  "update_days f data =
     bindE (get data (js ''days'')) (\<lambda>days.
       case days of
         JArr ds ps \<Rightarrow> bindE (f ds) (\<lambda>ds'. put data (js ''days'') (JArr ds' ps))
       | _ \<Rightarrow> Inl TypeError)"

definition forEach_activity :: "(jsval \<Rightarrow> error + jsval) \<Rightarrow> jsval \<Rightarrow> error + jsval" where
  "forEach_activity body data = update_days (mapE (update_activities (mapE body))) data"

text \<open>The same loop for a body that depends on where the activity stands (day, position).\<close>

definition forEach_activity_at :: "(nat \<Rightarrow> nat \<Rightarrow> jsval \<Rightarrow> error + jsval) \<Rightarrow> jsval \<Rightarrow> error + jsval" where
  "forEach_activity_at body data =
     update_days
       (\<lambda>ds. mapE (\<lambda>(i, day). update_activities (\<lambda>as. mapE (\<lambda>(j, act). body i j act) (enumerate 0 as)) day)
               (enumerate 0 ds))
       data"

subsection \<open>generateItinerary\<close>

text \<open>
  The trip form of the application. The prompt is built from it before the \<^verbatim>\<open>try\<close>:
  \<^verbatim>\<open>input.interests.join(', ')\<close> needs an array, and the arrival, departure and
  accommodation of the logistics are read.
\<close>

record TripInput =
  destination :: jsval
  startDate :: jsval
  durationDays :: jsval
  budget :: jsval
  travelers :: jsval
  interests :: jsval
  mustVisit :: jsval
  logistics :: jsval

definition nullish :: "jsval \<Rightarrow> bool" where
  "nullish v \<longleftrightarrow> v = JUndefined \<or> v = JNull"

definition generate_prompt :: "TripInput \<Rightarrow> error + unit" where
  "generate_prompt input =
     (case interests input of
        JArr xs ps \<Rightarrow>
          bindE (get (logistics input) (js ''arrival'')) (\<lambda>a.
          bindE (get (logistics input) (js ''departure'')) (\<lambda>d.
          bindE (get (logistics input) (js ''accommodation'')) (\<lambda>s.
          if nullish a \<or> nullish d \<or> nullish s then Inl TypeError else Inr ())))
      | _ \<Rightarrow> Inl TypeError)"

text \<open>
  The hydration of one activity. \<open>rnd\<close> is what
  \<^verbatim>\<open>Math.random().toString(36).substr(2, 9)\<close> yields for this activity if it is called.
\<close>

definition hydrate :: "variant \<Rightarrow> jstring \<Rightarrow> jsval \<Rightarrow> error + jsval" where
  "hydrate v rnd act =
     bindE (put act (js ''feedback'') (JStr (js ''neutral''))) (\<lambda>act.
     bindE (get act (js ''isLocked'')) (\<lambda>l.
     bindE (put act (js ''isLocked'') (if truthy l then l else JBool False)) (\<lambda>act.
     bindE (if handles_mandatory v then put act (js ''isMandatory'') (JBool False) else Inr act) (\<lambda>act.
     bindE (put act (js ''userNotes'') (JStr [])) (\<lambda>act.
     if generates_ids v
     then bindE (get act (js ''id'')) (\<lambda>i. if truthy i then Inr act else put act (js ''id'') (JStr rnd))
     else Inr act)))))"

definition generateItinerary ::
  "variant \<Rightarrow> (nat \<Rightarrow> nat \<Rightarrow> jstring) \<Rightarrow> TripInput \<Rightarrow> completion \<Rightarrow> error + jsval" where
  "generateItinerary v rnd input c =
     bindE (generate_prompt input) (\<lambda>_.
     bindE (response_text c) (\<lambda>text.
     bindE (case parse_json (sanitized v text) of
              Inl e \<Rightarrow> Inl (if wraps_parse_error v then FailedToParse else e)
            | Inr d \<Rightarrow> Inr d) (\<lambda>data.
     bindE (put data (js ''logistics'') (logistics input)) (\<lambda>data.
     bindE (put data (js ''wishlist'') (JArr [] [])) (\<lambda>data.
     bindE (if keeps_trip_settings v
            then bindE (put data (js ''startDate'') (startDate input)) (\<lambda>data.
                 bindE (put data (js ''durationDays'') (durationDays input)) (\<lambda>data.
                 bindE (put data (js ''travelers'') (travelers input)) (\<lambda>data.
                 put data (js ''interests'') (interests input))))
            else Inr data) (\<lambda>data.
     if guards_days v
     then bindE (get data (js ''days'')) (\<lambda>d.
            if truthy d then forEach_activity_at (\<lambda>i j. hydrate v (rnd i j)) data else Inr data)
     else forEach_activity_at (\<lambda>i j. hydrate v (rnd i j)) data))))))"

subsection \<open>refineItinerary\<close>

text \<open>
  \<^verbatim>\<open>oldActivityMap\<close>: a \<^verbatim>\<open>Map\<close> from activity id to activity, filled day by day; a
  later activity with the same id replaces the earlier one. A key that is an array or
  an object is never found again (see \<open>strict_eq\<close>), so it is left out.
\<close>

definition map_set :: "jsval \<Rightarrow> jsval \<Rightarrow> (jsval \<times> jsval) list \<Rightarrow> (jsval \<times> jsval) list" where
  "map_set k x m = (if is_primitive k then AList.update k x m else m)"

definition map_get :: "(jsval \<times> jsval) list \<Rightarrow> jsval \<Rightarrow> jsval" where
  "map_get m k = (case map_of m k of Some x \<Rightarrow> x | None \<Rightarrow> JUndefined)"

definition oldActivityMap :: "jsval \<Rightarrow> error + (jsval \<times> jsval) list" where
  "oldActivityMap currentItinerary =
     bindE (get currentItinerary (js ''days'')) (\<lambda>days.
       case days of
         JArr ds ps \<Rightarrow>
           foldE (\<lambda>m d.
                    bindE (get d (js ''activities'')) (\<lambda>acts.
                      case acts of
                        JArr as qs \<Rightarrow> foldE (\<lambda>m a. bindE (get a (js ''id'')) (\<lambda>i. Inr (map_set i a m))) m as
                      | _ \<Rightarrow> Inl TypeError))
                 [] ds
       | _ \<Rightarrow> Inl TypeError)"

text \<open>The body of the loop over the activities of the candidate.\<close>

definition merge_activity :: "variant \<Rightarrow> (jsval \<times> jsval) list \<Rightarrow> jsval \<Rightarrow> error + jsval" where
  "merge_activity v m act =
     bindE (get act (js ''id'')) (\<lambda>i.
       let old = map_get m i in
       if truthy old
       then
         bindE (bindE (get old (js ''feedback'')) (put act (js ''feedback''))) (\<lambda>act.
         bindE (bindE (get old (js ''actualCost'')) (put act (js ''actualCost''))) (\<lambda>act.
         bindE (bindE (get old (js ''userNotes'')) (put act (js ''userNotes''))) (\<lambda>act.
         bindE (if handles_mandatory v
                then bindE (get old (js ''isMandatory'')) (put act (js ''isMandatory''))
                else Inr act) (\<lambda>act.
         bindE (if handles_transport v
                then bindE (get old (js ''selectedTransport'')) (put act (js ''selectedTransport''))
                else Inr act) (\<lambda>act.
         bindE (get old (js ''isLocked'')) (\<lambda>l.
           if truthy l then object_assign act old else Inr act))))))
       else
         bindE (put act (js ''feedback'') (JStr (js ''neutral''))) (\<lambda>act.
         bindE (put act (js ''isLocked'') (JBool False)) (\<lambda>act.
         if handles_mandatory v then put act (js ''isMandatory'') (JBool False) else Inr act)))"

text \<open>What refineItinerary does with the parsed candidate \<open>data\<close>.\<close>

definition reconcile :: "variant \<Rightarrow> jsval \<Rightarrow> jsval \<Rightarrow> error + jsval" where
  "reconcile v currentItinerary data =
     bindE (oldActivityMap currentItinerary) (\<lambda>m.
     bindE (if guards_days v
            then bindE (get data (js ''days'')) (\<lambda>d.
                   if truthy d then forEach_activity (merge_activity v m) data else Inr data)
            else forEach_activity (merge_activity v m) data) (\<lambda>data.
     bindE (bindE (get currentItinerary (js ''wishlist'')) (put data (js ''wishlist''))) (\<lambda>data.
     bindE (bindE (get currentItinerary (js ''logistics'')) (put data (js ''logistics''))) (\<lambda>data.
     if keeps_trip_settings v
     then bindE (bindE (get currentItinerary (js ''startDate'')) (put data (js ''startDate''))) (\<lambda>data.
          bindE (bindE (get currentItinerary (js ''durationDays'')) (put data (js ''durationDays''))) (\<lambda>data.
          bindE (bindE (get currentItinerary (js ''travelers'')) (put data (js ''travelers''))) (\<lambda>data.
          bindE (get currentItinerary (js ''interests'')) (put data (js ''interests'')))))
     else Inr data))))"

definition refineItinerary :: "variant \<Rightarrow> jsval \<Rightarrow> completion \<Rightarrow> error + jsval" where
  "refineItinerary v currentItinerary c =
     bindE (response_text c) (\<lambda>text.
     bindE (parse_json (sanitized v text)) (\<lambda>data.
     reconcile v currentItinerary data))"

subsection \<open>handleRefine\<close>

text \<open>
  The handler of the App component (src/unnamed/part_000 and
  src/frontend/components/CloudSetup.tsx), as far as the state variables
  \<^verbatim>\<open>itinerary\<close>, \<^verbatim>\<open>refinePrompt\<close> and \<^verbatim>\<open>showRefineInput\<close> go. \<open>alerted\<close> records the
  \<^verbatim>\<open>alert("Refinement failed.")\<close> of the catch block.
\<close>

record app =
  itinerary :: jsval
  refinePrompt :: jstring
  showRefineInput :: bool
  alerted :: bool

definition handleRefine :: "variant \<Rightarrow> app \<Rightarrow> completion \<Rightarrow> app" where
  "handleRefine v st c =
     (if \<not> truthy (itinerary st) \<or> trim (refinePrompt st) = [] then st
      else
        (case bindE (refineItinerary v (itinerary st) c) (\<lambda>updated.
                bindE (get (itinerary st) (js ''id'')) (put updated (js ''id''))) of
           Inr updated \<Rightarrow> st\<lparr>itinerary := updated, refinePrompt := [], showRefineInput := False\<rparr>
         | Inl e \<Rightarrow> st\<lparr>alerted := True\<rparr>))"

subsection \<open>recalculateDaySchedule\<close>

text \<open>\<^verbatim>\<open>updates.find(u => u.id === act.id)\<close>: the first match, \<^verbatim>\<open>undefined\<close> if none;
  the elements after the match are not looked at.\<close>

fun find_update :: "jsval list \<Rightarrow> jsval \<Rightarrow> error + jsval" where
  "find_update [] i = Inr JUndefined"
| "find_update (u # us) i =
     bindE (get u (js ''id'')) (\<lambda>uid. if strict_eq uid i then Inr u else find_update us i)"

definition reschedule_activity :: "jsval list \<Rightarrow> jsval \<Rightarrow> error + jsval" where
  "reschedule_activity updates act =
     bindE (get act (js ''id'')) (\<lambda>i.
     bindE (find_update updates i) (\<lambda>update.
       if truthy update
       then bindE (get update (js ''time'')) (\<lambda>t.
            bindE (get update (js ''transportToNext'')) (\<lambda>n.
            bindE (put (spread act) (js ''time'') t) (\<lambda>r.
            put r (js ''transportToNext'') n)))
       else Inr act))"

text \<open>The body of the \<^verbatim>\<open>try\<close> block.\<close>

definition reschedule_try :: "jsval list \<Rightarrow> completion \<Rightarrow> error + jsval list" where
  "reschedule_try activities c =
     bindE (response_text c) (\<lambda>text.
     bindE (parse_json (cleanJson text)) (\<lambda>updates.
       case updates of
         JArr us ps \<Rightarrow> mapE (reschedule_activity us) activities
       | _ \<Rightarrow> Inl TypeError))"

text \<open>
  The prompt is built before the \<^verbatim>\<open>try\<close>: \<^verbatim>\<open>activities.map(a => ({id: a.id, ...}))\<close>
  reads every activity. \<open>previousLocation\<close> goes into the prompt only. Any failure
  inside the \<^verbatim>\<open>try\<close> ends in \<^verbatim>\<open>return activities\<close>. (The copy in src/unnamed/part_003
  returns the activities for an empty text without throwing first.)
\<close>

definition recalculateDaySchedule :: "jsval list \<Rightarrow> jsval \<Rightarrow> completion \<Rightarrow> error + jsval list" where
  "recalculateDaySchedule activities previousLocation c =
     (if list_ex nullish activities then Inl TypeError
      else (case reschedule_try activities c of
              Inl e \<Rightarrow> Inr activities
            | Inr updated \<Rightarrow> Inr updated))"

subsection \<open>analyzeSocialContent\<close>

definition placeholder :: jsval where
  "placeholder =
     JObj [(js ''possibleName'', JStr (js ''Unknown Spot'')),
           (js ''summary'', JStr (js ''Could not analyze'')),
           (js ''tags'', JArr [] [])]"

text \<open>
  The \<^verbatim>\<open>try\<close> block around the parse. \<^verbatim>\<open>JSON.parse(undefined)\<close> parses the string
  "undefined"; \<^verbatim>\<open>cleanJson(undefined)\<close> throws a TypeError.
\<close>

definition parse_analysis :: "variant \<Rightarrow> jstring option \<Rightarrow> error + jsval" where
  "parse_analysis v text =
     (if cleans_analysis v
      then (case text of None \<Rightarrow> Inl TypeError | Some t \<Rightarrow> parse_json (cleanJson t))
      else parse_json (case text of None \<Rightarrow> js ''undefined'' | Some t \<Rightarrow> t))"

text \<open>\<open>now\<close> is \<^verbatim>\<open>Date.now().toString()\<close>. The completion call is awaited before the
  \<^verbatim>\<open>try\<close>.\<close>

definition analyzeSocialContent :: "variant \<Rightarrow> jstring \<Rightarrow> jstring \<Rightarrow> completion \<Rightarrow> error + jsval" where
  "analyzeSocialContent v now content c =
     (case c of
        Rejects \<Rightarrow> Inl AIRejected
      | Resolves text \<Rightarrow>
          Inr (JObj [(js ''id'', JStr now),
                     (js ''content'', JStr content),
                     (js ''type'', JStr (if prefix (js ''http'') content then js ''url'' else js ''text'')),
                     (js ''analysis'',
                        (case parse_analysis v text of Inl e \<Rightarrow> placeholder | Inr a \<Rightarrow> a))]))"

section \<open>Reading an itinerary\<close>

text \<open>
  What the statements below read off an itinerary: its days and their activities, as
  \<^verbatim>\<open>forEach\<close> visits them; the activity that \<^verbatim>\<open>oldActivityMap.get(id)\<close> finds; and
  the top-level trip settings that a module carries over.
\<close>

fun holder :: "jsval \<Rightarrow> bool" where
  "holder (JObj ps) = True"
| "holder (JArr xs ps) = True"
| "holder v = False"

definition days_of :: "jsval \<Rightarrow> jsval list" where
  "days_of it = (case field it (js ''days'') of JArr ds ps \<Rightarrow> ds | _ \<Rightarrow> [])"

definition activities_of :: "jsval \<Rightarrow> jsval list" where
  "activities_of day = (case field day (js ''activities'') of JArr as ps \<Rightarrow> as | _ \<Rightarrow> [])"

definition all_activities :: "jsval \<Rightarrow> jsval list" where
  "all_activities it = concat (map activities_of (days_of it))"

definition lookup_old :: "jsval \<Rightarrow> jsval \<Rightarrow> jsval" where
  "lookup_old currentItinerary i =
     (case oldActivityMap currentItinerary of Inr m \<Rightarrow> map_get m i | Inl e \<Rightarrow> JUndefined)"


definition trip_keys :: "variant \<Rightarrow> jstring set" where
  "trip_keys v =
     (if keeps_trip_settings v
      then {js ''startDate'', js ''durationDays'', js ''travelers'', js ''interests''} else {})"

section \<open>The sanitizer as the specification words it\<close>

text \<open>
  \<open>find_sub pat s\<close> splits \<open>s\<close> at the first occurrence of \<open>pat\<close>: the text before it
  and the text after it.
\<close>

fun find_sub :: "jstring \<Rightarrow> jstring \<Rightarrow> (jstring \<times> jstring) option" where
  "find_sub pat [] = (if pat = [] then Some ([], []) else None)"
| "find_sub pat (x # xs) =
     (if prefix pat (x # xs) then Some ([], drop (length pat) (x # xs))
      else map_option (\<lambda>(a, b). (x # a, b)) (find_sub pat xs))"

definition closes :: "jstring \<Rightarrow> jstring \<Rightarrow> bool" where
  "closes cl s \<longleftrightarrow> prefix cl (dropWhile is_space s)"

definition rtrim :: "jstring \<Rightarrow> jstring" where
  "rtrim s = rev (dropWhile is_space (rev s))"

definition fenced_block :: "jstring \<Rightarrow> jstring \<Rightarrow> jstring option" where
  "fenced_block opener text =
     (case find_sub opener text of
        None \<Rightarrow> None
      | Some (before, after) \<Rightarrow>
          (case find_sub fence after of
             None \<Rightarrow> None
           | Some (interior, rest) \<Rightarrow> Some interior))"

definition outer_span :: "nat \<Rightarrow> nat \<Rightarrow> jstring \<Rightarrow> jstring option" where
  "outer_span l r t =
     (let from_first = dropWhile (\<lambda>c. c \<noteq> l) t;
          found = rev (dropWhile (\<lambda>c. c \<noteq> r) (rev from_first))
      in if found \<noteq> [] then Some found else None)"

definition index_span :: "nat \<Rightarrow> nat \<Rightarrow> jstring \<Rightarrow> jstring option" where
  "index_span l r t =
     (let i = indexOf t l; j = lastIndexOf t r
      in if i \<noteq> - 1 \<and> j \<noteq> - 1 \<and> j > i then Some (substring t i (j + 1)) else None)"

text \<open>
  The four steps of the specification, in its order: the trimmed interior of a fenced
  block (one opened by \<^verbatim>\<open>```json\<close> first, else one opened by \<^verbatim>\<open>```\<close>), else the text
  from the first \<^verbatim>\<open>[\<close> to the last \<^verbatim>\<open>]\<close>, else the text from the first \<^verbatim>\<open>{\<close> to the
  last \<^verbatim>\<open>}\<close>, else the text without fence markers, trimmed.
\<close>

definition sanitize_spec :: "jstring \<Rightarrow> jstring" where
  "sanitize_spec t =
     (case fenced_block fence_json t of
        Some interior \<Rightarrow> trim interior
      | None \<Rightarrow>
          (case fenced_block fence t of
             Some interior \<Rightarrow> trim interior
           | None \<Rightarrow>
               (case outer_span 91 93 t of
                  Some found \<Rightarrow> found
                | None \<Rightarrow>
                    (case outer_span 123 125 t of
                       Some found \<Rightarrow> found
                     | None \<Rightarrow> trim (remove_all fence (remove_all fence_json t))))))"

section \<open>Example data\<close>

text \<open>
  A prior itinerary with one locked activity, a candidate that proposes changes to it
  and brings two new activities, and what refineItinerary makes of them in
  src/services/geminiService.ts and in src/unnamed/part_003; a trip form, the state of
  the application before a refinement, and the activities of a day.
\<close>

definition ex_locked :: jsval where
  "ex_locked =
     JObj [(js ''id'', JStr (js ''a1'')), (js ''title'', JStr (js ''Castle Tour'')),
           (js ''isLocked'', JBool True), (js ''feedback'', JStr (js ''like''))]"

definition ex_prior :: jsval where
  "ex_prior =
     JObj [(js ''id'', JStr (js ''trip-1'')),
           (js ''days'', JArr [JObj [(js ''activities'', JArr [ex_locked] [])]] []),
           (js ''wishlist'', JArr [JObj [(js ''id'', JStr (js ''w1''))]] []),
           (js ''logistics'', JObj [(js ''accommodation'', JStr (js ''Hotel Lisboa''))]),
           (js ''startDate'', JStr (js ''2025-05-01'')),
           (js ''durationDays'', JNum 2),
           (js ''travelers'', JNum 2),
           (js ''interests'', JArr [JStr (js ''art'')] [])]"

definition ex_candidate :: jsval where
  "ex_candidate =
     JObj [(js ''id'', JStr (js ''gen-9'')),
           (js ''days'',
              JArr [JObj [(js ''activities'',
                      JArr [JObj [(js ''id'', JStr (js ''a1'')), (js ''title'', JStr (js ''Palace'')),
                                  (js ''imageUrl'', JStr (js ''palace.jpg''))],
                            JObj [(js ''id'', JStr (js ''n1'')), (js ''title'', JStr (js ''Brunch'')),
                                  (js ''userNotes'', JStr (js ''Bring cash''))],
                            JObj [(js ''id'', JStr (js ''n2'')), (js ''title'', JStr (js ''Fado night''))]] [])]] []),
           (js ''startDate'', JStr (js ''2030-01-01'')),
           (js ''logistics'', JNull)]"

definition ex_refined :: jsval where
  "ex_refined =
     JObj [(js ''id'', JStr (js ''gen-9'')),
           (js ''days'',
              JArr [JObj [(js ''activities'',
                      JArr [JObj [(js ''id'', JStr (js ''a1'')), (js ''title'', JStr (js ''Castle Tour'')),
                                  (js ''imageUrl'', JStr (js ''palace.jpg'')),
                                  (js ''feedback'', JStr (js ''like'')),
                                  (js ''actualCost'', JUndefined),
                                  (js ''userNotes'', JUndefined),
                                  (js ''isLocked'', JBool True)],
                            JObj [(js ''id'', JStr (js ''n1'')), (js ''title'', JStr (js ''Brunch'')),
                                  (js ''userNotes'', JStr (js ''Bring cash'')),
                                  (js ''feedback'', JStr (js ''neutral'')),
                                  (js ''isLocked'', JBool False)],
                            JObj [(js ''id'', JStr (js ''n2'')), (js ''title'', JStr (js ''Fado night'')),
                                  (js ''feedback'', JStr (js ''neutral'')),
                                  (js ''isLocked'', JBool False)]] [])]] []),
           (js ''startDate'', JStr (js ''2030-01-01'')),
           (js ''logistics'', JObj [(js ''accommodation'', JStr (js ''Hotel Lisboa''))]),
           (js ''wishlist'', JArr [JObj [(js ''id'', JStr (js ''w1''))]] [])]"

definition ex_refined_003 :: jsval where
  "ex_refined_003 =
     JObj [(js ''id'', JStr (js ''gen-9'')),
           (js ''days'',
              JArr [JObj [(js ''activities'',
                      JArr [JObj [(js ''id'', JStr (js ''a1'')), (js ''title'', JStr (js ''Castle Tour'')),
                                  (js ''imageUrl'', JStr (js ''palace.jpg'')),
                                  (js ''feedback'', JStr (js ''like'')),
                                  (js ''actualCost'', JUndefined),
                                  (js ''userNotes'', JUndefined),
                                  (js ''isMandatory'', JUndefined),
                                  (js ''selectedTransport'', JUndefined),
                                  (js ''isLocked'', JBool True)],
                            JObj [(js ''id'', JStr (js ''n1'')), (js ''title'', JStr (js ''Brunch'')),
                                  (js ''userNotes'', JStr (js ''Bring cash'')),
                                  (js ''feedback'', JStr (js ''neutral'')),
                                  (js ''isLocked'', JBool False),
                                  (js ''isMandatory'', JBool False)],
                            JObj [(js ''id'', JStr (js ''n2'')), (js ''title'', JStr (js ''Fado night'')),
                                  (js ''feedback'', JStr (js ''neutral'')),
                                  (js ''isLocked'', JBool False),
                                  (js ''isMandatory'', JBool False)]] [])]] []),
           (js ''startDate'', JStr (js ''2030-01-01'')),
           (js ''logistics'', JObj [(js ''accommodation'', JStr (js ''Hotel Lisboa''))]),
           (js ''wishlist'', JArr [JObj [(js ''id'', JStr (js ''w1''))]] [])]"

definition ex_input :: TripInput where
  "ex_input =
     \<lparr>destination = JStr (js ''Lisbon''), startDate = JStr (js ''2025-05-01''),
      durationDays = JNum 2, budget = JStr (js ''moderate''), travelers = JNum 2,
      interests = JArr [JStr (js ''art'')] [], mustVisit = JStr [],
      logistics =
        JObj [(js ''arrival'', JObj [(js ''type'', JStr (js ''flight''))]),
              (js ''departure'', JObj [(js ''type'', JStr (js ''flight''))]),
              (js ''accommodation'', JObj [(js ''name'', JStr (js ''Hotel Lisboa''))])]\<rparr>"

definition ex_random :: "nat \<Rightarrow> nat \<Rightarrow> jstring" where
  "ex_random i j = js ''k3x9q2m1z''"

definition ex_app :: app where
  "ex_app = \<lparr>itinerary = ex_prior, refinePrompt = js ''more museums'', showRefineInput = True, alerted = False\<rparr>"

definition ex_day :: "jsval list" where
  "ex_day =
     [JObj [(js ''id'', JStr (js ''a1'')), (js ''time'', JStr (js ''09:00'')),
            (js ''imageUrl'', JStr (js ''castle.jpg'')), (js ''userNotes'', JStr (js ''Bring cash''))],
      JObj [(js ''id'', JStr (js ''a2'')), (js ''time'', JStr (js ''11:00'')),
            (js ''actualCost'', JNum 12)]]"

text \<open>
  A prior itinerary and a response of the completion service with every field that
  the types \<^verbatim>\<open>Itinerary\<close>, \<^verbatim>\<open>DayPlan\<close> and \<^verbatim>\<open>Activity\<close> require. The prior
  activity is locked and has no \<^verbatim>\<open>imageUrl\<close> (an optional field); the response changes
  the activity and gives it one.
\<close>

definition ex_tour :: jsval where
  "ex_tour =
     JObj [(js ''id'', JStr (js ''a1'')), (js ''time'', JStr (js ''09:00'')),
           (js ''title'', JStr (js ''Castle Tour'')), (js ''description'', JStr (js ''Guided tour'')),
           (js ''location'', JStr (js ''Castle'')), (js ''type'', JStr (js ''culture'')),
           (js ''durationMinutes'', JNum 90), (js ''estimatedCost'', JNum 15),
           (js ''isLocked'', JBool True), (js ''feedback'', JStr (js ''like''))]"

definition ex_stay :: jsval where
  "ex_stay =
     JObj [(js ''arrival'', JObj [(js ''type'', JStr (js ''flight'')), (js ''location'', JStr (js ''LIS'')),
                                 (js ''time'', JStr (js ''08:00''))]),
           (js ''departure'', JObj [(js ''type'', JStr (js ''flight'')), (js ''location'', JStr (js ''LIS'')),
                                   (js ''time'', JStr (js ''20:00''))]),
           (js ''accommodation'', JObj [(js ''name'', JStr (js ''Hotel Lisboa'')),
                                       (js ''address'', JStr (js ''Rua Augusta 1''))])]"

definition ex_trip :: jsval where
  "ex_trip =
     JObj [(js ''id'', JStr (js ''trip-1'')), (js ''destination'', JStr (js ''Lisbon'')),
           (js ''title'', JStr (js ''Lisbon weekend'')), (js ''totalBudget'', JNum 500),
           (js ''currency'', JStr (js ''EUR'')),
           (js ''days'',
              JArr [JObj [(js ''date'', JStr (js ''2025-05-01'')), (js ''dayNumber'', JNum 1),
                          (js ''activities'', JArr [ex_tour] [])]] []),
           (js ''logistics'', ex_stay),
           (js ''wishlist'', JArr [] [])]"

definition ex_reply :: jstring where
  \<open>ex_reply =
     js ''{"id":"gen-9","destination":"Lisbon","title":"Lisbon weekend","totalBudget":500,"currency":"EUR","days":[{"date":"2025-05-01","dayNumber":1,"activities":[{"id":"a1","time":"14:00","title":"Palace","description":"Royal palace","location":"Sintra","type":"culture","durationMinutes":60,"estimatedCost":20,"isLocked":false,"imageUrl":"palace.jpg"}]}]}''\<close>

definition ex_trip_refined :: jsval where
  "ex_trip_refined =
     JObj [(js ''id'', JStr (js ''gen-9'')), (js ''destination'', JStr (js ''Lisbon'')),
           (js ''title'', JStr (js ''Lisbon weekend'')), (js ''totalBudget'', JNum 500),
           (js ''currency'', JStr (js ''EUR'')),
           (js ''days'',
              JArr [JObj [(js ''date'', JStr (js ''2025-05-01'')), (js ''dayNumber'', JNum 1),
                          (js ''activities'',
                             JArr [JObj [(js ''id'', JStr (js ''a1'')), (js ''time'', JStr (js ''09:00'')),
                                         (js ''title'', JStr (js ''Castle Tour'')),
                                         (js ''description'', JStr (js ''Guided tour'')),
                                         (js ''location'', JStr (js ''Castle'')),
                                         (js ''type'', JStr (js ''culture'')),
                                         (js ''durationMinutes'', JNum 90), (js ''estimatedCost'', JNum 15),
                                         (js ''isLocked'', JBool True),
                                         (js ''imageUrl'', JStr (js ''palace.jpg'')),
                                         (js ''feedback'', JStr (js ''like'')),
                                         (js ''actualCost'', JUndefined),
                                         (js ''userNotes'', JUndefined)]] [])]] []),
           (js ''wishlist'', JArr [] []),
           (js ''logistics'', ex_stay)]"

section \<open>Properties of the sanitizer\<close>

lemma find_sub_Some: "find_sub pat s = Some (a, b) \<Longrightarrow> s = a @ pat @ b"
proof (induction s arbitrary: a)
  case Nil
  then show ?case by (simp split: if_splits)
next
  case (Cons x xs)
  show ?case
  proof (cases "prefix pat (x # xs)")
    case True
    with Cons.prems have "a = []" "b = drop (length pat) (x # xs)" by auto
    with True show ?thesis by (metis append_Nil append_take_drop_id prefix_def append_eq_conv_conj)
  next
    case False
    with Cons.prems obtain a' where "find_sub pat xs = Some (a', b)" "a = x # a'" by auto
    with Cons.IH show ?thesis by simp
  qed
qed

lemma find_sub_None: "find_sub pat s = None \<longleftrightarrow> \<not> sublist pat s"
proof (induction s)
  case Nil
  then show ?case by simp
next
  case (Cons x xs)
  then show ?case by (auto simp: sublist_Cons_right)
qed

lemma rx_match_lits:
  "rx_match (map Lit lit @ p) g s = (if prefix lit s then rx_match p g (drop (length lit) s) else None)"
proof (induction lit arbitrary: s)
  case Nil
  then show ?case by simp
next
  case (Cons c lit)
  then show ?case by (cases s) auto
qed

lemma rx_match_tail:
  assumes "cl \<noteq> []" "\<not> is_space (hd cl)"
  shows "rx_match (Spaces # map Lit cl) g s = (if closes cl s then Some g else None)"
proof (induction s)
  case Nil
  show ?case using rx_match_lits[of cl "[]" g "[]"] by (simp add: closes_def)
next
  case (Cons x s)
  have lit: "rx_match (map Lit cl) g (x # s) = (if prefix cl (x # s) then Some g else None)"
    using rx_match_lits[of cl "[]" g "x # s"] by simp
  show ?case
  proof (cases "is_space x")
    case True
    then have "\<not> prefix cl (x # s)" using assms by (cases cl) auto
    with True Cons lit show ?thesis by (simp add: closes_def)
  next
    case False
    with lit show ?thesis by (simp add: closes_def)
  qed
qed

lemma find_sub_spaces:
  assumes "cl \<noteq> []" "\<not> is_space (hd cl)" "\<forall>c\<in>set w. is_space c"
  shows "find_sub cl (w @ cl @ r) = Some (w, r)"
  using assms(3)
proof (induction w)
  case Nil
  from assms(1) show ?case by (cases cl) auto
next
  case (Cons x w)
  then have "\<not> prefix cl (x # w @ cl @ r)" using assms by (cases cl) auto
  with Cons show ?case by simp
qed

lemma rtrim_Nil_iff: "rtrim b = [] \<longleftrightarrow> (\<forall>c\<in>set b. is_space c)"
  by (auto simp: rtrim_def dropWhile_eq_Nil_conv)

lemma dropWhile_spaces_append:
  assumes "\<forall>c\<in>set w. is_space c"
  shows "dropWhile is_space (w @ t) = dropWhile is_space t"
  using assms by (induction w) auto

lemma closes_iff:
  assumes "cl \<noteq> []" "\<not> is_space (hd cl)"
  shows "closes cl s \<longleftrightarrow> (\<exists>b r. find_sub cl s = Some (b, r) \<and> rtrim b = [])"
proof
  assume "closes cl s"
  then obtain r where r: "dropWhile is_space s = cl @ r"
    by (auto simp: closes_def prefix_def)
  have s: "s = takeWhile is_space s @ cl @ r"
    using r takeWhile_dropWhile_id[of is_space s] by simp
  have sp: "\<forall>c\<in>set (takeWhile is_space s). is_space c"
    by (auto dest: set_takeWhileD)
  have "find_sub cl (takeWhile is_space s @ cl @ r) = Some (takeWhile is_space s, r)"
    using find_sub_spaces[OF assms sp] .
  with s sp show "\<exists>b r. find_sub cl s = Some (b, r) \<and> rtrim b = []"
    by (metis rtrim_Nil_iff)
next
  assume "\<exists>b r. find_sub cl s = Some (b, r) \<and> rtrim b = []"
  then obtain b r where f: "find_sub cl s = Some (b, r)" and b: "\<forall>c\<in>set b. is_space c"
    by (auto simp: rtrim_Nil_iff)
  from find_sub_Some[OF f] have "s = b @ cl @ r" .
  moreover have "dropWhile is_space (cl @ r) = cl @ r"
    using assms by (cases cl) auto
  ultimately show "closes cl s"
    using dropWhile_spaces_append[OF b, of "cl @ r"] by (simp add: closes_def)
qed

lemma rx_match_lazy:
  assumes "cl \<noteq> []" "\<not> is_space (hd cl)"
  shows "rx_match (LazyAny # Spaces # map Lit cl) g s =
         (case find_sub cl s of None \<Rightarrow> None | Some (b, r) \<Rightarrow> Some (g @ rtrim b))"
proof (induction s arbitrary: g)
  case Nil
  from assms(1) have "\<not> closes cl []" by (simp add: closes_def)
  with assms(1) show ?case
    by (simp del: rx_match.simps add: rx_match.simps(6) rx_match_tail[OF assms])
next
  case (Cons x s)
  note tail = rx_match_tail[OF assms]
  show ?case
  proof (cases "closes cl (x # s)")
    case True
    then obtain b r where "find_sub cl (x # s) = Some (b, r)" "rtrim b = []"
      using closes_iff[OF assms] by blast
    with True show ?thesis
      by (simp del: rx_match.simps find_sub.simps add: rx_match.simps(7) tail)
  next
    case False
    have np: "\<not> prefix cl (x # s)"
    proof
      assume p: "prefix cl (x # s)"
      then have "\<not> is_space x" using assms by (cases cl) auto
      with p False show False by (simp add: closes_def)
    qed
    show ?thesis
    proof (cases "find_sub cl s")
      case None
      with False np Cons show ?thesis
        by (simp del: rx_match.simps add: rx_match.simps(7) tail)
    next
      case (Some br)
      obtain b r where br: "br = (b, r)" by (cases br)
      have fs: "find_sub cl (x # s) = Some (x # b, r)" using np Some br by simp
      have "rtrim (x # b) \<noteq> []" using False closes_iff[OF assms, of "x # s"] fs by auto
      then have "rtrim (x # b) = x # rtrim b"
        by (auto simp: rtrim_def dropWhile_append split: if_splits)
      with False Cons Some br fs show ?thesis
        by (simp del: rx_match.simps find_sub.simps add: rx_match.simps(7) tail)
    qed
  qed
qed

lemma find_sub_dropWhile:
  assumes "cl \<noteq> []" "\<not> is_space (hd cl)"
  shows "find_sub cl (dropWhile is_space s) =
         map_option (\<lambda>(b, r). (dropWhile is_space b, r)) (find_sub cl s)"
proof (induction s)
  case Nil
  from assms(1) show ?case by simp
next
  case (Cons x s)
  show ?case
  proof (cases "is_space x")
    case True
    then have "\<not> prefix cl (x # s)" using assms by (cases cl) auto
    with True Cons show ?thesis by (cases "find_sub cl s") auto
  next
    case False
    then show ?thesis by (cases "find_sub cl s") auto
  qed
qed

lemma rx_match_body:
  assumes "cl \<noteq> []" "\<not> is_space (hd cl)"
  shows "rx_match (Spaces # LazyAny # Spaces # map Lit cl) g s =
         (case find_sub cl s of None \<Rightarrow> None | Some (b, r) \<Rightarrow> Some (g @ trim b))"
proof (induction s)
  case Nil
  from assms(1) show ?case
    by (simp del: rx_match.simps add: rx_match.simps(4) rx_match_lazy[OF assms])
next
  case (Cons x s)
  note lazy = rx_match_lazy[OF assms]
  show ?case
  proof (cases "is_space x")
    case False
    have "trim b = rtrim b" if "find_sub cl (x # s) = Some (b, r)" for b r
    proof -
      from that have "b = [] \<or> (\<exists>b'. b = x # b')" by (auto split: if_splits)
      with False show ?thesis by (auto simp: trim_def rtrim_def)
    qed
    with False show ?thesis
      by (auto simp del: rx_match.simps find_sub.simps simp add: rx_match.simps(5) lazy
          split: option.splits)
  next
    case True
    then have np: "\<not> prefix cl (x # s)" using assms by (cases cl) auto
    show ?thesis
    proof (cases "find_sub cl s")
      case None
      with True np Cons show ?thesis
        by (simp del: rx_match.simps add: rx_match.simps(5) lazy)
    next
      case (Some br)
      obtain b r where br: "br = (b, r)" by (cases br)
      have "trim (x # b) = trim b" using True by (simp add: trim_def)
      with True np Cons Some br show ?thesis
        by (simp del: rx_match.simps add: rx_match.simps(5) lazy)
    qed
  qed
qed

lemma fence_props: "fence \<noteq> []" "\<not> is_space (hd fence)"
  by (simp_all add: fence_def js_def is_space_def)

lemma rx_match_fenced:
  "rx_match (fenced_rx opener) [] s =
     (if prefix opener s
      then (case find_sub fence (drop (length opener) s) of None \<Rightarrow> None | Some (b, r) \<Rightarrow> Some (trim b))
      else None)"
  unfolding fenced_rx_def
  by (auto simp del: rx_match.simps simp add: rx_match_lits rx_match_body[OF fence_props]
      split: option.splits)

lemma rx_search_fenced:
  assumes "opener \<noteq> []"
  shows "rx_search (fenced_rx opener) t = map_option trim (fenced_block opener t)"
proof (induction t)
  case Nil
  from assms show ?case by (simp add: rx_match_fenced fenced_block_def del: rx_match.simps)
next
  case (Cons x s)
  show ?case
  proof (cases "prefix opener (x # s)")
    case False
    with Cons show ?thesis
      by (auto simp del: rx_match.simps simp add: rx_match_fenced fenced_block_def
          split: option.splits)
  next
    case True
    show ?thesis
    proof (cases "find_sub fence (drop (length opener) (x # s))")
      case (Some br)
      with True show ?thesis
        by (cases br) (simp del: rx_match.simps add: rx_match_fenced fenced_block_def)
    next
      case None
      have "fenced_block opener s = None"
      proof (rule ccontr)
        assume "fenced_block opener s \<noteq> None"
        then obtain a b i r where 1: "find_sub opener s = Some (a, b)" and 2: "find_sub fence b = Some (i, r)"
          by (auto simp: fenced_block_def split: option.splits)
        from find_sub_Some[OF 1] find_sub_Some[OF 2]
        have s: "x # s = (x # a) @ opener @ i @ fence @ r" by simp
        have "drop (length opener) (((x # a) @ opener) @ (i @ fence @ r)) =
              drop (length opener) ((x # a) @ opener) @ (i @ fence @ r)"
          by (simp only: drop_append) simp
        with s have "drop (length opener) (x # s) = drop (length opener) ((x # a) @ opener) @ i @ fence @ r"
          by simp
        then have "sublist fence (drop (length opener) (x # s))"
          by (metis sublist_appendI sublist_append_rightI append.assoc)
        with None show False by (simp add: find_sub_None)
      qed
      with True None Cons show ?thesis
        by (simp del: rx_match.simps add: rx_match_fenced fenced_block_def)
    qed
  qed
qed

lemma rev_dropWhile_rev: "rev (dropWhile P (rev xs)) = take (length xs - length (takeWhile P (rev xs))) xs"
proof -
  have "rev xs = takeWhile P (rev xs) @ dropWhile P (rev xs)" by simp
  then have "xs = rev (dropWhile P (rev xs)) @ rev (takeWhile P (rev xs))"
    by (metis rev_append rev_rev_ident)
  then show ?thesis
    by (metis append_eq_conv_conj length_rev length_append add_diff_cancel_right')
qed

lemma index_span_eq:
  assumes "l \<noteq> r"
  shows "index_span l r t = outer_span l r t"
proof -
  define pre where "pre = takeWhile (\<lambda>c. c \<noteq> l) t"
  define ff where "ff = dropWhile (\<lambda>c. c \<noteq> l) t"
  define sp where "sp = rev (dropWhile (\<lambda>c. c \<noteq> r) (rev ff))"
  have os: "outer_span l r t = (if sp \<noteq> [] then Some sp else None)"
    by (simp only: outer_span_def Let_def ff_def sp_def)
  have t: "t = pre @ ff" by (simp add: pre_def ff_def)
  show ?thesis
  proof (cases "l \<in> set t")
    case False
    then have "ff = []" by (auto simp: ff_def dropWhile_eq_Nil_conv)
    then have "sp = []" by (simp add: sp_def)
    with False os show ?thesis by (simp add: index_span_def indexOf_def Let_def)
  next
    case True
    have ffne: "ff \<noteq> []" using True by (auto simp: ff_def dropWhile_eq_Nil_conv)
    have hd: "hd ff = l" using ffne hd_dropWhile[of "\<lambda>c. c \<noteq> l" t] by (simp add: ff_def)
    have i: "indexOf t l = int (length pre)" using True by (simp add: indexOf_def pre_def)
    have dr: "drop (length pre) t = ff" using t by simp
    show ?thesis
    proof (cases "r \<in> set ff")
      case rin: True
      define m where "m = length (takeWhile (\<lambda>c. c \<noteq> r) (rev ff))"
      have tw: "takeWhile (\<lambda>c. c \<noteq> r) (rev t) = takeWhile (\<lambda>c. c \<noteq> r) (rev ff)"
        using rin t by (simp add: takeWhile_append1)
      have dne: "dropWhile (\<lambda>c. c \<noteq> r) (rev ff) \<noteq> []"
        using rin by (auto simp: dropWhile_eq_Nil_conv)
      have split: "rev ff = takeWhile (\<lambda>c. c \<noteq> r) (rev ff) @ dropWhile (\<lambda>c. c \<noteq> r) (rev ff)"
        by simp
      have len: "length ff = m + length (dropWhile (\<lambda>c. c \<noteq> r) (rev ff))"
        unfolding m_def by (metis length_append length_rev takeWhile_dropWhile_id)
      have mlt: "m < length ff" using dne len by simp
      have mne: "Suc m \<noteq> length ff"
      proof
        assume e: "Suc m = length ff"
        with len have "length (dropWhile (\<lambda>c. c \<noteq> r) (rev ff)) = 1" by simp
        then obtain y where y: "dropWhile (\<lambda>c. c \<noteq> r) (rev ff) = [y]"
          by (metis length_0_conv length_Suc_conv One_nat_def)
        then have "y = r" using hd_dropWhile[of "\<lambda>c. c \<noteq> r" "rev ff"] by auto
        moreover from y split have "rev ff = takeWhile (\<lambda>c. c \<noteq> r) (rev ff) @ [y]" by simp
        then have "hd ff = y" by (metis last_rev last_snoc ffne)
        ultimately show False using hd assms by simp
      qed
      have rint: "r \<in> set t" using rin t by simp
      have j: "lastIndexOf t r = int (length pre) + int (length ff) - 1 - int m"
        using rint tw t by (simp add: lastIndexOf_def m_def)
      have sub: "substring t (int (length pre)) (int (length pre) + int (length ff) - 1 - int m + 1) = take (length ff - m) ff"
        using mlt dr t by (simp add: substring_def Let_def min_def max_def nat_diff_distrib' nat_add_distrib)
      have span: "sp = take (length ff - m) ff"
        by (simp add: sp_def rev_dropWhile_rev m_def)
      have ne: "take (length ff - m) ff \<noteq> []" using mlt ffne by simp
      show ?thesis
        using i j sub span ne mlt mne os
        by (simp add: index_span_def Let_def)
    next
      case rnot: False
      then have sp: "sp = []" by (auto simp: sp_def dropWhile_eq_Nil_conv)
      have "\<not> (lastIndexOf t r \<noteq> - 1 \<and> lastIndexOf t r > indexOf t l)"
      proof (cases "r \<in> set t")
        case False
        then show ?thesis by (simp add: lastIndexOf_def)
      next
        case True
        have "takeWhile (\<lambda>c. c \<noteq> r) (rev ff @ rev pre) = rev ff @ takeWhile (\<lambda>c. c \<noteq> r) (rev pre)"
          using rnot by (intro takeWhile_append2) auto
        then have "takeWhile (\<lambda>c. c \<noteq> r) (rev t) = rev ff @ takeWhile (\<lambda>c. c \<noteq> r) (rev pre)"
          using t by simp
        then have "lastIndexOf t r = int (length pre) - 1 - int (length (takeWhile (\<lambda>c. c \<noteq> r) (rev pre)))"
          using True t by (simp add: lastIndexOf_def)
        with i show ?thesis by simp
      qed
      with sp os show ?thesis by (simp add: index_span_def Let_def)
    qed
  qed
qed

lemma dropWhile_id: "xs = [] \<or> \<not> P (hd xs) \<Longrightarrow> dropWhile P xs = xs"
  by (cases xs) auto

lemma trim_trim: "trim (trim s) = trim s"
proof -
  define d where "d = dropWhile is_space s"
  define e where "e = dropWhile is_space (rev d)"
  have e: "e = [] \<or> \<not> is_space (hd e)"
    unfolding e_def using hd_dropWhile[of is_space "rev d"] by blast
  have d: "d = [] \<or> \<not> is_space (hd d)"
    unfolding d_def using hd_dropWhile[of is_space s] by blast
  have re: "rev e = take (length d - length (takeWhile is_space (rev d))) d"
    unfolding e_def by (rule rev_dropWhile_rev)
  have "rev e = [] \<or> \<not> is_space (hd (rev e))"
  proof (cases "rev e = []")
    case False
    with re have "hd (rev e) = hd d" "d \<noteq> []" by (auto simp: hd_take)
    with d show ?thesis by auto
  qed simp
  then have 1: "dropWhile is_space (rev e) = rev e" by (rule dropWhile_id)
  have 2: "dropWhile is_space e = e" using e by (rule dropWhile_id)
  have "trim s = rev e" by (simp add: trim_def d_def e_def)
  moreover have "trim (rev e) = rev e" using 1 2 by (simp add: trim_def)
  ultimately show ?thesis by simp
qed

lemma sublist_trim: "sublist (trim s) s"
proof -
  have "sublist (dropWhile is_space (rev (dropWhile is_space s))) (rev (dropWhile is_space s))"
    by (rule sublist_dropWhile)
  then have "sublist (trim s) (dropWhile is_space s)"
    by (simp add: trim_def sublist_rev_left)
  then show ?thesis
    using sublist_dropWhile sublist_order.order_trans by blast
qed

lemma fenced_block_SomeD:
  assumes "fenced_block opener t = Some i"
  shows "sublist (opener @ i @ fence) t"
proof -
  from assms obtain a b r where 1: "find_sub opener t = Some (a, b)" and 2: "find_sub fence b = Some (i, r)"
    by (auto simp: fenced_block_def split: option.splits)
  from find_sub_Some[OF 1] find_sub_Some[OF 2] have "t = a @ (opener @ i @ fence) @ r" by simp
  then show ?thesis unfolding sublist_def by blast
qed

lemma find_sub_leftmost:
  "find_sub pat s = Some (a', b') \<Longrightarrow> s = a @ pat @ r \<Longrightarrow> length a' \<le> length a"
proof (induction s arbitrary: a a')
  case Nil
  then show ?case by (auto split: if_splits)
next
  case (Cons x xs)
  show ?case
  proof (cases "prefix pat (x # xs)")
    case True
    with Cons.prems(1) show ?thesis by simp
  next
    case False
    with Cons.prems(1) obtain a'' where a'': "find_sub pat xs = Some (a'', b')" "a' = x # a''" by auto
    from False Cons.prems(2) have "a \<noteq> []" by (auto simp: prefix_def)
    then obtain a0 where a0: "a = x # a0" using Cons.prems(2) by (cases a) auto
    with Cons.prems(2) have "xs = a0 @ pat @ r" by simp
    from Cons.IH[OF a''(1) this] a''(2) a0 show ?thesis by simp
  qed
qed

lemma fenced_block_None_iff:
  "fenced_block opener t = None \<longleftrightarrow> \<not> (\<exists>i. sublist (opener @ i @ fence) t)"
proof
  assume n: "fenced_block opener t = None"
  show "\<not> (\<exists>i. sublist (opener @ i @ fence) t)"
  proof
    assume "\<exists>i. sublist (opener @ i @ fence) t"
    then obtain i a r where t: "t = a @ opener @ (i @ fence @ r)" by (auto simp: sublist_def)
    then have "sublist opener t" by (metis sublist_appendI)
    then obtain a' b' where f: "find_sub opener t = Some (a', b')"
      using find_sub_None[of opener t] by (cases "find_sub opener t") auto
    from find_sub_leftmost[OF f t] have le: "length a' \<le> length a" .
    from find_sub_Some[OF f] have t': "t = a' @ opener @ b'" .
    have "b' = drop (length a' + length opener) t" using t' by (metis append.assoc append_eq_conv_conj length_append)
    also have "\<dots> = drop (length a' + length opener) ((a @ opener) @ (i @ fence @ r))" using t by simp
    also have "\<dots> = drop (length a' + length opener) (a @ opener) @ (i @ fence @ r)"
      using le by (simp only: drop_append) simp
    finally have "sublist fence b'" by (metis sublist_appendI append.assoc)
    then have "find_sub fence b' \<noteq> None" by (simp add: find_sub_None)
    with f n show False by (auto simp: fenced_block_def split: option.splits)
  qed
next
  assume "\<not> (\<exists>i. sublist (opener @ i @ fence) t)"
  then show "fenced_block opener t = None"
    using fenced_block_SomeD by (cases "fenced_block opener t") blast+
qed

lemma fence_json_fence: "fence_json = fence @ js ''json''"
  by (simp add: fence_def fence_json_def js_def)

lemma no_fence_no_json_fence:
  assumes "fenced_block fence t = None"
  shows "fenced_block fence_json t = None"
proof -
  have "\<not> sublist (fence_json @ i @ fence) t" for i
    using assms unfolding fenced_block_None_iff fence_json_fence by (metis append.assoc)
  then show ?thesis by (simp add: fenced_block_None_iff)
qed

lemma fenced_block_None_sublist:
  assumes "fenced_block opener t = None" "sublist s t"
  shows "fenced_block opener s = None"
  using assms unfolding fenced_block_None_iff
  by (meson sublist_order.order_trans)

lemma subseq_pair_iff:
  assumes "l \<noteq> r"
  shows "subseq [l, r] t \<longleftrightarrow> r \<in> set (dropWhile (\<lambda>c. c \<noteq> l) t)"
proof (induction t)
  case Nil
  then show ?case by simp
next
  case (Cons x xs)
  then show ?case using assms by (auto simp: subseq_singleton_left)
qed

lemma outer_span_None_iff:
  assumes "l \<noteq> r"
  shows "outer_span l r t = None \<longleftrightarrow> \<not> subseq [l, r] t"
  unfolding subseq_pair_iff[OF assms]
  by (auto simp: outer_span_def Let_def dropWhile_eq_Nil_conv)

lemma outer_span_SomeD:
  assumes "l \<noteq> r" "outer_span l r t = Some s"
  shows "outer_span l r s = Some s" "sublist s t"
proof -
  define ff where "ff = dropWhile (\<lambda>c. c \<noteq> l) t"
  define e where "e = dropWhile (\<lambda>c. c \<noteq> r) (rev ff)"
  from assms(2) have s: "s = rev e" and ne: "e \<noteq> []"
    by (auto simp: outer_span_def Let_def ff_def e_def split: if_splits)
  have he: "hd e = r" using ne hd_dropWhile[of "\<lambda>c. c \<noteq> r" "rev ff"] by (auto simp: e_def)
  have take: "rev e = take (length ff - length (takeWhile (\<lambda>c. c \<noteq> r) (rev ff))) ff"
    unfolding e_def by (rule rev_dropWhile_rev)
  have ffne: "ff \<noteq> []" using ne by (auto simp: e_def)
  have "hd ff = l" using ffne hd_dropWhile[of "\<lambda>c. c \<noteq> l" t] by (auto simp: ff_def)
  moreover have "hd (rev e) = hd ff" using take ne by (metis hd_take rev_is_Nil_conv take_eq_Nil not_gr_zero)
  ultimately have hs: "hd s = l" using s by simp
  have 1: "dropWhile (\<lambda>c. c \<noteq> l) s = s" using hs by (intro dropWhile_id) simp
  have 2: "dropWhile (\<lambda>c. c \<noteq> r) (rev s) = rev s" using he s by (intro dropWhile_id) simp
  have "r \<in> set e" using he ne hd_in_set by blast
  then show "outer_span l r s = Some s" using 1 2 ne s by (simp add: outer_span_def Let_def)
  have "sublist s ff" using take s by (metis sublist_take)
  then show "sublist s t" unfolding ff_def using sublist_dropWhile sublist_order.order_trans by blast
qed

lemma remove_all_subseq: "subseq (remove_all p s) s"
proof (induction p s rule: remove_all.induct)
  case (1 pat)
  then show ?case by simp
next
  case (2 pat x xs)
  show ?case
  proof (cases "pat \<noteq> [] \<and> prefix pat (x # xs)")
    case True
    with 2 have "subseq (remove_all pat (drop (length pat) (x # xs))) (drop (length pat) (x # xs))" by simp
    moreover have "subseq (drop (length pat) (x # xs)) (x # xs)"
      by (rule sublist_imp_subseq) (rule sublist_drop)
    ultimately show ?thesis using True by (metis remove_all.simps(2) subseq_order.order_trans)
  next
    case False
    with 2 show ?thesis by auto
  qed
qed

lemma remove_all_id: "\<not> sublist p s \<Longrightarrow> remove_all p s = s"
proof (induction s)
  case Nil
  then show ?case by simp
next
  case (Cons x xs)
  then show ?case by (auto simp: sublist_Cons_right)
qed

lemma remove_triple_prefix1:
  "prefix [c] (remove_all [c, c, c] s) \<Longrightarrow> prefix [c] s"
  by (cases s) (auto split: if_splits)

lemma remove_triple_prefix2:
  assumes "prefix [c, c] (remove_all [c, c, c] s)"
  shows "prefix [c, c] s"
proof (cases "prefix [c, c, c] s")
  case True
  then show ?thesis by (auto simp: prefix_def)
next
  case False
  show ?thesis
  proof (cases s)
    case Nil
    with assms show ?thesis by simp
  next
    case (Cons y ys)
    have eq: "remove_all [c, c, c] (y # ys) = y # remove_all [c, c, c] ys"
      using False unfolding Cons by (simp only: remove_all.simps if_False simp_thms)
    have "prefix [c, c] (y # remove_all [c, c, c] ys)" using assms unfolding Cons eq .
    then have "y = c" "prefix [c] (remove_all [c, c, c] ys)" by auto
    with remove_triple_prefix1[of c ys] Cons show ?thesis by auto
  qed
qed

lemma remove_triple_none_aux:
  "pat = [c, c, c] \<Longrightarrow> \<not> sublist pat (remove_all pat s)"
proof (induction pat s rule: remove_all.induct)
  case (1 pat)
  then show ?case by simp
next
  case (2 pat x xs)
  show ?case
  proof (cases "prefix pat (x # xs)")
    case True
    have ne: "pat \<noteq> []" using "2.prems" by simp
    have "remove_all pat (x # xs) = remove_all pat (drop (length pat) (x # xs))"
      using True ne by (simp only: remove_all.simps simp_thms if_True)
    moreover have "\<not> sublist pat (remove_all pat (drop (length pat) (x # xs)))"
      using "2.IH"(1) True ne "2.prems" by blast
    ultimately show ?thesis by simp
  next
    case False
    have eq: "remove_all pat (x # xs) = x # remove_all pat xs"
      using False by (simp only: remove_all.simps simp_thms if_False)
    have "\<not> prefix pat (x # remove_all pat xs)"
    proof
      assume "prefix pat (x # remove_all pat xs)"
      then have "prefix [c, c, c] (x # remove_all [c, c, c] xs)" unfolding "2.prems" .
      then have "x = c" "prefix [c, c] (remove_all [c, c, c] xs)" by auto
      with remove_triple_prefix2[of c xs] have "prefix [c, c, c] (x # xs)" by simp
      with False "2.prems" show False by auto
    qed
    moreover have "\<not> sublist pat (remove_all pat xs)" using "2.IH"(2) False "2.prems" by blast
    ultimately show ?thesis unfolding eq by (simp only: sublist_Cons_right simp_thms)
  qed
qed

lemma remove_triple_none: "\<not> sublist [c, c, c] (remove_all [c, c, c] s)"
  by (rule remove_triple_none_aux) simp

lemma fence_triple: "fence = [96, 96, 96]"
  by (simp add: fence_def js_def)

lemma cleanJson_index_span:
  "cleanJson t =
     (case (case rx_search (fenced_rx fence_json) t of Some g \<Rightarrow> Some g | None \<Rightarrow> rx_search (fenced_rx fence) t) of
        Some g \<Rightarrow> trim g
      | None \<Rightarrow>
          (case index_span 91 93 t of
             Some found \<Rightarrow> found
           | None \<Rightarrow>
               (case index_span 123 125 t of
                  Some found \<Rightarrow> found
                | None \<Rightarrow> trim (remove_all fence (remove_all fence_json t)))))"
  by (simp add: cleanJson_def index_span_def Let_def split: option.splits)

lemma opener_ne: "fence_json \<noteq> []" "fence \<noteq> []"
  by (simp_all add: fence_def fence_json_def js_def)

lemma cleanJson_refines: "cleanJson t = sanitize_spec t"
  unfolding cleanJson_index_span sanitize_spec_def
  by (simp add: rx_search_fenced opener_ne index_span_eq trim_trim split: option.splits)

lemma fallback_fixed:
  assumes "s = trim (remove_all fence (remove_all fence_json t))"
  shows "\<not> sublist fence s" "trim (remove_all fence (remove_all fence_json s)) = s"
proof -
  have "\<not> sublist fence (remove_all fence (remove_all fence_json t))"
    unfolding fence_triple by (rule remove_triple_none)
  then show nf: "\<not> sublist fence s"
    unfolding assms using sublist_trim sublist_order.order_trans by blast
  have "sublist fence fence_json" unfolding fence_json_fence by simp
  with nf have "\<not> sublist fence_json s" using sublist_order.order_trans by blast
  with nf show "trim (remove_all fence (remove_all fence_json s)) = s"
    by (simp add: remove_all_id assms trim_trim)
qed

lemma sanitize_spec_idem:
  assumes "fenced_block fence t = None"
  shows "sanitize_spec (sanitize_spec t) = sanitize_spec t"
proof -
  note nj = no_fence_no_json_fence[OF assms]
  have b: "(91::nat) \<noteq> 93" "(123::nat) \<noteq> 125" by simp_all
  show ?thesis
  proof (cases "outer_span 91 93 t")
    case (Some s)
    from outer_span_SomeD[OF b(1) Some] have s: "outer_span 91 93 s = Some s" "sublist s t" .
    from fenced_block_None_sublist[OF assms s(2)] fenced_block_None_sublist[OF nj s(2)]
    show ?thesis using Some s(1) assms nj by (simp add: sanitize_spec_def)
  next
    case None
    show ?thesis
    proof (cases "outer_span 123 125 t")
      case (Some s)
      from outer_span_SomeD[OF b(2) Some] have s: "outer_span 123 125 s = Some s" "sublist s t" .
      have "outer_span 91 93 s = None"
        using None s(2) unfolding outer_span_None_iff[OF b(1)]
        by (meson sublist_imp_subseq subseq_order.order_trans)
      with fenced_block_None_sublist[OF assms s(2)] fenced_block_None_sublist[OF nj s(2)]
      show ?thesis using Some None s(1) assms nj by (simp add: sanitize_spec_def)
    next
      case None2: None
      define s where "s = trim (remove_all fence (remove_all fence_json t))"
      from fallback_fixed[OF s_def] have nf: "\<not> sublist fence s"
        and fx: "trim (remove_all fence (remove_all fence_json s)) = s" .
      have ss: "subseq s t"
        unfolding s_def
        by (meson sublist_imp_subseq sublist_trim remove_all_subseq subseq_order.order_trans)
      have f1: "fenced_block fence s = None"
        using nf unfolding fenced_block_None_iff
        by (metis sublist_appendI sublist_order.order_trans append_Nil)
      have f2: "fenced_block fence_json s = None" by (rule no_fence_no_json_fence[OF f1])
      have o1: "outer_span 91 93 s = None"
        using None ss unfolding outer_span_None_iff[OF b(1)] by (meson subseq_order.order_trans)
      have o2: "outer_span 123 125 s = None"
        using None2 ss unfolding outer_span_None_iff[OF b(2)] by (meson subseq_order.order_trans)
      have "sanitize_spec t = s" using None None2 assms nj by (simp add: sanitize_spec_def s_def)
      moreover have "sanitize_spec s = s" using f1 f2 o1 o2 fx by (simp add: sanitize_spec_def)
      ultimately show ?thesis by simp
    qed
  qed
qed

section \<open>Properties of the reconciliation\<close>

lemma bindE_Inl [simp]: "bindE (Inl e) f = Inl e"
  by (simp add: bindE_def)

lemma bindE_Inr [simp]: "bindE (Inr a) f = f a"
  by (simp add: bindE_def)

lemma bindE_eq_Inr: "bindE m f = Inr r \<longleftrightarrow> (\<exists>a. m = Inr a \<and> f a = Inr r)"
  by (cases m) auto

lemma js_eq [simp]: "js a = js b \<longleftrightarrow> a = b"
  by (simp add: js_def inj_map_eq_map inj_on_def)

lemma put_Inr:
  assumes "put v k x = Inr r"
  shows "holder v" "holder r" "field r k = x" "k' \<noteq> k \<Longrightarrow> field r k' = field v k'"
  using assms by (cases v; auto simp: put_def field_def update_conv' split: if_splits)+

lemma get_holder: "holder v \<Longrightarrow> get v k = Inr (field v k)"
  by (cases v) (auto simp: get_def)

lemma get_Inr: "get v k = Inr x \<Longrightarrow> x = field v k"
  by (cases v) (auto simp: get_def)

lemma truthy_field_holder: "truthy (field v k) \<Longrightarrow> holder v"
  by (cases v) (auto simp: field_def)

lemma mapE_Inr: "mapE f xs = Inr ys \<longleftrightarrow> list_all2 (\<lambda>x y. f x = Inr y) xs ys"
proof (induction xs arbitrary: ys)
  case Nil
  then show ?case by auto
next
  case (Cons x xs)
  then show ?case by (cases ys) (auto simp: bindE_eq_Inr)
qed

lemma update_activities_Inr:
  assumes "update_activities f day = Inr day'"
  shows "f (activities_of day) = Inr (activities_of day')"
    and "holder day'"
    and "k \<noteq> js ''activities'' \<Longrightarrow> field day' k = field day k"
proof -
  from assms obtain acts where g: "get day (js ''activities'') = Inr acts"
    by (auto simp: update_activities_def bindE_eq_Inr)
  then have acts: "acts = field day (js ''activities'')" by (rule get_Inr)
  from assms g obtain as qs as' where a: "acts = JArr as qs" "f as = Inr as'"
    "put day (js ''activities'') (JArr as' qs) = Inr day'"
    by (cases acts) (auto simp: update_activities_def bindE_eq_Inr)
  from put_Inr[OF a(3)] a acts
  show "f (activities_of day) = Inr (activities_of day')" "holder day'"
    "k \<noteq> js ''activities'' \<Longrightarrow> field day' k = field day k"
    by (auto simp: activities_of_def)
qed

lemma update_days_Inr:
  assumes "update_days f data = Inr data'"
  shows "f (days_of data) = Inr (days_of data')"
    and "holder data'"
    and "k \<noteq> js ''days'' \<Longrightarrow> field data' k = field data k"
proof -
  from assms obtain days where g: "get data (js ''days'') = Inr days"
    by (auto simp: update_days_def bindE_eq_Inr)
  then have days: "days = field data (js ''days'')" by (rule get_Inr)
  from assms g obtain ds qs ds' where a: "days = JArr ds qs" "f ds = Inr ds'"
    "put data (js ''days'') (JArr ds' qs) = Inr data'"
    by (cases days) (auto simp: update_days_def bindE_eq_Inr)
  from put_Inr[OF a(3)] a days
  show "f (days_of data) = Inr (days_of data')" "holder data'"
    "k \<noteq> js ''days'' \<Longrightarrow> field data' k = field data k"
    by (auto simp: days_of_def)
qed

lemma forEach_activity_Inr:
  assumes "forEach_activity body data = Inr data'"
  shows "list_all2 (\<lambda>d d'. list_all2 (\<lambda>a a'. body a = Inr a') (activities_of d) (activities_of d'))
           (days_of data) (days_of data')"
    and "holder data'"
    and "k \<noteq> js ''days'' \<Longrightarrow> field data' k = field data k"
proof -
  from assms have u: "update_days (mapE (update_activities (mapE body))) data = Inr data'"
    by (simp add: forEach_activity_def)
  from update_days_Inr(1)[OF u]
  have "list_all2 (\<lambda>d d'. update_activities (mapE body) d = Inr d') (days_of data) (days_of data')"
    by (simp add: mapE_Inr)
  then show "list_all2 (\<lambda>d d'. list_all2 (\<lambda>a a'. body a = Inr a') (activities_of d) (activities_of d'))
           (days_of data) (days_of data')"
    by (rule list_all2_mono) (auto dest!: update_activities_Inr(1) simp: mapE_Inr)
  from update_days_Inr(2,3)[OF u]
  show "holder data'" "k \<noteq> js ''days'' \<Longrightarrow> field data' k = field data k" by auto
qed

lemma copy_field_Inr:
  assumes "bindE (get old k) (put act k) = Inr r"
  shows "holder act" "holder r" "field r k = field old k" "k' \<noteq> k \<Longrightarrow> field r k' = field act k'"
proof -
  from assms obtain x where x: "get old k = Inr x" "put act k x = Inr r"
    by (auto simp: bindE_eq_Inr)
  from get_Inr[OF x(1)] put_Inr[OF x(2)]
  show "holder act" "holder r" "field r k = field old k" "k' \<noteq> k \<Longrightarrow> field r k' = field act k'"
    by auto
qed







lemma days_of_falsy: "\<not> truthy (field it (js ''days'')) \<Longrightarrow> days_of it = []"
  by (cases "field it (js ''days'')") (auto simp: days_of_def)

lemma days_of_cong: "field a (js ''days'') = field b (js ''days'') \<Longrightarrow> days_of a = days_of b"
  by (simp add: days_of_def)

lemma reconcile_Inr:
  assumes "reconcile v P C = Inr R"
  shows "\<exists>m. oldActivityMap P = Inr m \<and>
           list_all2 (\<lambda>d d'. list_all2 (\<lambda>a a'. merge_activity v m a = Inr a') (activities_of d) (activities_of d'))
             (days_of C) (days_of R)"
    and "holder R"
    and "k \<in> {js ''wishlist'', js ''logistics''} \<union> trip_keys v \<Longrightarrow> field R k = field P k"
    and "k \<notin> {js ''days'', js ''wishlist'', js ''logistics''} \<union> trip_keys v \<Longrightarrow> field R k = field C k"
proof -
  let ?loop = "forEach_activity"
  from assms obtain m d1 d2 d3 where
    m: "oldActivityMap P = Inr m" and
    1: "(if guards_days v
         then bindE (get C (js ''days'')) (\<lambda>d. if truthy d then forEach_activity (merge_activity v m) C else Inr C)
         else forEach_activity (merge_activity v m) C) = Inr d1" and
    2: "bindE (get P (js ''wishlist'')) (put d1 (js ''wishlist'')) = Inr d2" and
    3: "bindE (get P (js ''logistics'')) (put d2 (js ''logistics'')) = Inr d3" and
    4: "(if keeps_trip_settings v
         then bindE (bindE (get P (js ''startDate'')) (put d3 (js ''startDate''))) (\<lambda>data.
              bindE (bindE (get P (js ''durationDays'')) (put data (js ''durationDays''))) (\<lambda>data.
              bindE (bindE (get P (js ''travelers'')) (put data (js ''travelers''))) (\<lambda>data.
              bindE (get P (js ''interests'')) (put data (js ''interests'')))))
         else Inr d3) = Inr R"
    unfolding reconcile_def by (auto simp: bindE_eq_Inr)
  have loop: "list_all2 (\<lambda>d d'. list_all2 (\<lambda>a a'. merge_activity v m a = Inr a') (activities_of d) (activities_of d'))
             (days_of C) (days_of d1) \<and> (\<forall>k. k \<noteq> js ''days'' \<longrightarrow> field d1 k = field C k)"
  proof (cases "forEach_activity (merge_activity v m) C = Inr d1")
    case True
    from forEach_activity_Inr(1,3)[OF True] show ?thesis by blast
  next
    case False
    with 1 obtain d where "guards_days v" "get C (js ''days'') = Inr d" "\<not> truthy d" "d1 = C"
      by (auto simp: bindE_eq_Inr split: if_splits)
    then show ?thesis using get_Inr[of C "js ''days''" d] by (simp add: days_of_falsy)
  qed
  note c2 = copy_field_Inr[OF 2] and c3 = copy_field_Inr[OF 3]
  have r: "holder R \<and> (\<forall>k. field R k = (if k \<in> trip_keys v then field P k else field d3 k))"
  proof (cases "keeps_trip_settings v")
    case False
    with 4 c3(2) show ?thesis by (simp add: trip_keys_def)
  next
    case True
    with 4 obtain e1 e2 e3 where
      5: "bindE (get P (js ''startDate'')) (put d3 (js ''startDate'')) = Inr e1" and
      6: "bindE (get P (js ''durationDays'')) (put e1 (js ''durationDays'')) = Inr e2" and
      7: "bindE (get P (js ''travelers'')) (put e2 (js ''travelers'')) = Inr e3" and
      8: "bindE (get P (js ''interests'')) (put e3 (js ''interests'')) = Inr R"
      by (auto simp: bindE_eq_Inr)
    note c5 = copy_field_Inr[OF 5] and c6 = copy_field_Inr[OF 6] and c7 = copy_field_Inr[OF 7]
      and c8 = copy_field_Inr[OF 8]
    from True c5(3,4) c6(3,4) c7(3,4) c8(2,3,4) show ?thesis by (auto simp: trip_keys_def)
  qed
  have tk: "js ''days'' \<notin> trip_keys v" "js ''wishlist'' \<notin> trip_keys v" "js ''logistics'' \<notin> trip_keys v"
    by (auto simp: trip_keys_def)
  have "field R (js ''days'') = field d1 (js ''days'')"
    using r tk c3(4)[of "js ''days''"] c2(4)[of "js ''days''"] by simp
  then have "days_of R = days_of d1" by (rule days_of_cong)
  with loop m show "\<exists>m. oldActivityMap P = Inr m \<and>
           list_all2 (\<lambda>d d'. list_all2 (\<lambda>a a'. merge_activity v m a = Inr a') (activities_of d) (activities_of d'))
             (days_of C) (days_of R)" by simp
  from r show "holder R" by simp
  show "field R k = field P k" if "k \<in> {js ''wishlist'', js ''logistics''} \<union> trip_keys v"
    using that r tk c3(3) c3(4)[of "js ''wishlist''"] c2(3) by auto
  show "field R k = field C k" if "k \<notin> {js ''days'', js ''wishlist'', js ''logistics''} \<union> trip_keys v"
    using that r loop c3(4)[of k] c2(4)[of k] by auto
qed


lemma array_key_id [simp]: "\<not> array_key (js ''id'')"
  by (simp add: array_key_def js_def)

lemma put_holder: "holder v \<Longrightarrow> \<not> array_key k \<Longrightarrow> \<exists>r. put v k x = Inr r"
  by (cases v) (auto simp: put_def)

lemma refineItinerary_Inr:
  assumes "refineItinerary v P c = Inr R"
  shows "\<exists>text data. c = Resolves (Some text) \<and> text \<noteq> [] \<and> JSON_parse (sanitized v text) = Some data \<and>
           reconcile v P data = Inr R"
  using assms
  by (auto simp: refineItinerary_def bindE_eq_Inr response_text_def parse_json_def
      split: completion.splits option.splits if_splits)

lemma spread_JObj [simp]: "spread (JObj ps) = JObj ps"
  by (simp add: spread_def own_props_def)

lemma find_update_none:
  assumes "find_update us i = Inr u" "\<forall>x\<in>set us. \<not> strict_eq (field x (js ''id'')) i"
  shows "u = JUndefined"
  using assms
proof (induction us)
  case Nil
  then show ?case by simp
next
  case (Cons x xs)
  from Cons.prems(1) obtain uid where uid: "get x (js ''id'') = Inr uid" by (auto simp: bindE_eq_Inr)
  then have "uid = field x (js ''id'')" by (rule get_Inr)
  with Cons uid show ?case by simp
qed

lemma reschedule_activity_Inr:
  assumes "reschedule_activity us (JObj ps) = Inr r"
  shows "k \<noteq> js ''time'' \<Longrightarrow> k \<noteq> js ''transportToNext'' \<Longrightarrow> field r k = field (JObj ps) k"
    and "\<forall>x\<in>set us. \<not> strict_eq (field x (js ''id'')) (field (JObj ps) (js ''id'')) \<Longrightarrow> r = JObj ps"
proof -
  from assms obtain i u where i: "get (JObj ps) (js ''id'') = Inr i" and u: "find_update us i = Inr u"
    and rest: "(if truthy u
       then bindE (get u (js ''time'')) (\<lambda>t.
            bindE (get u (js ''transportToNext'')) (\<lambda>n.
            bindE (put (spread (JObj ps)) (js ''time'') t) (\<lambda>r.
            put r (js ''transportToNext'') n)))
       else Inr (JObj ps)) = Inr r"
    by (auto simp: reschedule_activity_def bindE_eq_Inr)
  from i have i': "i = field (JObj ps) (js ''id'')" by (rule get_Inr)
  show "field r k = field (JObj ps) k" if "k \<noteq> js ''time''" "k \<noteq> js ''transportToNext''"
  proof (cases "truthy u")
    case False
    with rest show ?thesis by simp
  next
    case True
    with rest obtain t n r1 where p: "put (JObj ps) (js ''time'') t = Inr r1" "put r1 (js ''transportToNext'') n = Inr r"
      by (auto simp: bindE_eq_Inr)
    from put_Inr(4)[OF p(1), of k] put_Inr(4)[OF p(2), of k] that show ?thesis by simp
  qed
  show "r = JObj ps" if "\<forall>x\<in>set us. \<not> strict_eq (field x (js ''id'')) (field (JObj ps) (js ''id''))"
    using find_update_none[OF u] that i' rest by simp
qed

lemma reschedule_try_Inr:
  assumes "reschedule_try activities c = Inr out"
  shows "\<exists>text us ps. c = Resolves (Some text) \<and> text \<noteq> [] \<and> JSON_parse (cleanJson text) = Some (JArr us ps) \<and>
           list_all2 (\<lambda>a r. reschedule_activity us a = Inr r) activities out"
proof -
  from assms obtain tx updates where t: "response_text c = Inr tx" "parse_json (cleanJson tx) = Inr updates"
    and r: "(case updates of JArr us ps \<Rightarrow> mapE (reschedule_activity us) activities | _ \<Rightarrow> Inl TypeError) = Inr out"
    by (auto simp: reschedule_try_def bindE_eq_Inr)
  from r obtain us ps where u: "updates = JArr us ps" "mapE (reschedule_activity us) activities = Inr out"
    by (cases updates) auto
  from t u show ?thesis
    by (auto simp: response_text_def parse_json_def mapE_Inr split: completion.splits option.splits if_splits)
qed

lemma not_nullish_obj: "\<forall>a\<in>set activities. \<exists>ps. a = JObj ps \<Longrightarrow> \<not> list_ex nullish activities"
  by (auto simp: list_ex_iff nullish_def)

section \<open>Evaluation on concrete inputs\<close>

lemmas str_eval = js_def fence_def fence_json_def trim_def is_space_def

lemmas clean_eval =
  cleanJson_def cleanJson_backend_def fenced_rx_def indexOf_def lastIndexOf_def substring_def Let_def

lemmas json_eval =
  JSON_parse_def idle_def emit_def number_of_def digits_val_def hex_val_def unescape_def

lemma js_eq_Nil [simp]: "js s = [] \<longleftrightarrow> s = []" "[] = js s \<longleftrightarrow> s = []"
  by (auto simp: js_def)

lemmas variants =
  services_geminiService_def frontend_geminiService_def frontend_geminiService_2_def
  backend_api_def unnamed_part_003_def

lemmas svc_eval =
  reconcile_def oldActivityMap_def forEach_activity_def update_days_def update_activities_def
  merge_activity_def get_def put_def field_def map_get_def map_set_def object_assign_def set_property_def
  own_props_def days_of_def activities_of_def all_activities_def lookup_old_def Let_def

lemma parse_undefined: "JSON_parse (js ''undefined'') = None"
  by (simp add: str_eval json_eval)

lemmas ex_data = ex_locked_def ex_prior_def ex_candidate_def ex_refined_def ex_refined_003_def

lemma ex_reconcile: "reconcile services_geminiService ex_prior ex_candidate = Inr ex_refined"
  by (simp add: ex_data variants svc_eval)

lemma ex_reconcile_003: "reconcile unnamed_part_003 ex_prior ex_candidate = Inr ex_refined_003"
  by (simp add: ex_data variants svc_eval)

lemmas run_eval =
  generateItinerary_def generate_prompt_def hydrate_def forEach_activity_at_def refineItinerary_def
  handleRefine_def response_text_def parse_json_def sanitized_def nullish_def
  recalculateDaySchedule_def reschedule_try_def reschedule_activity_def strict_eq_def spread_def
  analyzeSocialContent_def parse_analysis_def placeholder_def bindE_def

section \<open>The claims about the sanitizer\<close>

text \<open>
  C9, as the specification states it: for every text the sanitizer returns the trimmed
  interior of a fenced block, else the bracket span, else the brace span, else the text
  without fence markers. The helper of src/backend/api.ts has the last step only: it
  returns a text with a bracket span whole, and it keeps the prose around a fenced
  block.
\<close>

theorem backend_keeps_prose:
  \<open>fenced_block fence_json (js ''Sure: {"days":[1,2]} done'') = None \<and>
   fenced_block fence (js ''Sure: {"days":[1,2]} done'') = None \<and>
   outer_span 91 93 (js ''Sure: {"days":[1,2]} done'') = Some (js ''[1,2]'') \<and>
   cleanJson_backend (js ''Sure: {"days":[1,2]} done'') = js ''Sure: {"days":[1,2]} done'' \<and>
   fenced_block fence_json (js ''Here: ```json\<newline>{"a":1}\<newline>``` bye'') = Some (js ''\<newline>{"a":1}\<newline>'') \<and>
   cleanJson_backend (js ''Here: ```json\<newline>{"a":1}\<newline>``` bye'') = js ''Here: \<newline>{"a":1}\<newline> bye''\<close>
proof -
  have 1: \<open>fenced_block fence_json (js ''Sure: {"days":[1,2]} done'') = None\<close>
    by (simp add: str_eval fenced_block_def)
  have 2: \<open>fenced_block fence (js ''Sure: {"days":[1,2]} done'') = None\<close>
    by (simp add: str_eval fenced_block_def)
  have 3: \<open>outer_span 91 93 (js ''Sure: {"days":[1,2]} done'') = Some (js ''[1,2]'')\<close>
    by (simp add: str_eval outer_span_def Let_def)
  have 4: \<open>cleanJson_backend (js ''Sure: {"days":[1,2]} done'') = js ''Sure: {"days":[1,2]} done''\<close>
    by (simp add: str_eval clean_eval)
  have 5: \<open>fenced_block fence_json (js ''Here: ```json\<newline>{"a":1}\<newline>``` bye'') = Some (js ''\<newline>{"a":1}\<newline>'')\<close>
    by (simp add: str_eval fenced_block_def)
  have 6: \<open>cleanJson_backend (js ''Here: ```json\<newline>{"a":1}\<newline>``` bye'') = js ''Here: \<newline>{"a":1}\<newline> bye''\<close>
    by (simp add: str_eval clean_eval)
  show ?thesis using 1 2 3 4 5 6 by simp
qed

text \<open>
  C9, amended: for every text, \<open>cleanJson\<close> of the frontend modules and of
  src/unnamed/part_003 returns the trimmed interior of a fenced code block if there is
  one, else the span from the first \<^verbatim>\<open>[\<close> to the last \<^verbatim>\<open>]\<close> if the last comes after
  the first, else the span from the first \<^verbatim>\<open>{\<close> to the last \<^verbatim>\<open>}\<close>, else the text with
  the fence markers stripped, trimmed. The helper of src/backend/api.ts does the last
  step on every text, and so returns what the full helper returns whenever the text
  has no fenced block and no span. For the fenced text \<^verbatim>\<open>```json\n{"a":1}\n```\<close> both
  return exactly \<^verbatim>\<open>{"a":1}\<close>.
\<close>

theorem cleanJson_priority:
  \<open>cleanJson t = sanitize_spec t \<and>
   cleanJson (js ''```json\<newline>{"a":1}\<newline>```'') = js ''{"a":1}'' \<and>
   cleanJson_backend t = trim (remove_all fence (remove_all fence_json t)) \<and>
   (fenced_block fence_json t = None \<and> fenced_block fence t = None \<and>
    outer_span 91 93 t = None \<and> outer_span 123 125 t = None \<longrightarrow>
      cleanJson_backend t = cleanJson t) \<and>
   cleanJson_backend (js ''```json\<newline>{"a":1}\<newline>```'') = js ''{"a":1}''\<close>
proof -
  have 1: \<open>cleanJson (js ''```json\<newline>{"a":1}\<newline>```'') = js ''{"a":1}''\<close>
    by (simp add: str_eval clean_eval)
  have 2: \<open>cleanJson_backend (js ''```json\<newline>{"a":1}\<newline>```'') = js ''{"a":1}''\<close>
    by (simp add: str_eval clean_eval)
  have 3: "cleanJson_backend t = cleanJson t"
    if "fenced_block fence_json t = None" "fenced_block fence t = None"
       "outer_span 91 93 t = None" "outer_span 123 125 t = None"
    using that by (simp add: cleanJson_refines sanitize_spec_def cleanJson_backend_def)
  show ?thesis using 1 2 3 by (simp add: cleanJson_refines cleanJson_backend_def)
qed

theorem cleanJson_priority_witness:
  \<open>cleanJson (js ''Sure: {"days":[1,2]} done'') = sanitize_spec (js ''Sure: {"days":[1,2]} done'') \<and>
   sanitize_spec (js ''Sure: {"days":[1,2]} done'') = js ''[1,2]'' \<and>
   fenced_block fence_json (js ''```json 7'') = None \<and> fenced_block fence (js ''```json 7'') = None \<and>
   outer_span 91 93 (js ''```json 7'') = None \<and> outer_span 123 125 (js ''```json 7'') = None \<and>
   cleanJson_backend (js ''```json 7'') = cleanJson (js ''```json 7'') \<and>
   cleanJson (js ''```json 7'') = js ''7''\<close>
proof -
  have s: \<open>sanitize_spec (js ''Sure: {"days":[1,2]} done'') = js ''[1,2]''\<close>
    by (simp add: str_eval sanitize_spec_def fenced_block_def outer_span_def Let_def)
  have h: "fenced_block fence_json (js ''```json 7'') = None" "fenced_block fence (js ''```json 7'') = None"
    "outer_span 91 93 (js ''```json 7'') = None" "outer_span 123 125 (js ''```json 7'') = None"
    by (simp_all add: str_eval fenced_block_def outer_span_def Let_def)
  have c: "cleanJson (js ''```json 7'') = js ''7''"
    by (simp add: str_eval clean_eval)
  from cleanJson_priority[of \<open>js ''Sure: {"days":[1,2]} done''\<close>]
  have 1: \<open>cleanJson (js ''Sure: {"days":[1,2]} done'') = sanitize_spec (js ''Sure: {"days":[1,2]} done'')\<close>
    by (rule conjunct1)
  from cleanJson_priority[of "js ''```json 7''"] h
  have 2: "cleanJson_backend (js ''```json 7'') = cleanJson (js ''```json 7'')"
    by blast
  from 1 s h 2 c show ?thesis by (simp only: simp_thms)
qed

text \<open>
  C10, as the specification states it: sanitizing twice is sanitizing once, for every
  valid JSON document. It fails for a document that holds a fenced block inside a
  string: the first pass returns the interior of the block, and the second pass cuts
  that interior down to its bracket span.
\<close>

theorem cleanJson_not_idempotent:
  \<open>JSON_parse (js ''{"note":"```[a]b```"}'') = Some (JObj [(js ''note'', JStr (js ''```[a]b```''))]) \<and>
   cleanJson (js ''{"note":"```[a]b```"}'') = js ''[a]b'' \<and>
   cleanJson (cleanJson (js ''{"note":"```[a]b```"}'')) = js ''[a]''\<close>
proof -
  have 1: \<open>JSON_parse (js ''{"note":"```[a]b```"}'') = Some (JObj [(js ''note'', JStr (js ''```[a]b```''))])\<close>
    by (simp add: str_eval json_eval)
  have 2: \<open>cleanJson (js ''{"note":"```[a]b```"}'') = js ''[a]b''\<close>
    by (simp add: str_eval clean_eval)
  have 3: \<open>cleanJson (js ''[a]b'') = js ''[a]''\<close>
    by (simp add: str_eval clean_eval)
  show ?thesis using 1 2 3 by simp
qed

text \<open>
  C10, amended: for every text without a fenced block (no \<^verbatim>\<open>```\<close> that is followed
  by another \<^verbatim>\<open>```\<close>), and so for every JSON document whose strings hold no such pair,
  sanitizing twice is sanitizing once.
\<close>

theorem cleanJson_idempotent:
  assumes "fenced_block fence t = None"
  shows "cleanJson (cleanJson t) = cleanJson t"
  using sanitize_spec_idem[OF assms] by (simp add: cleanJson_refines)

theorem cleanJson_idempotent_witness:
  \<open>fenced_block fence (js ''{"a":[1]}'') = None \<and>
   JSON_parse (js ''{"a":[1]}'') = Some (JObj [(js ''a'', JArr [JNum 1] [])]) \<and>
   cleanJson (js ''{"a":[1]}'') = js ''[1]'' \<and>
   cleanJson (cleanJson (js ''{"a":[1]}'')) = cleanJson (js ''{"a":[1]}'')\<close>
proof -
  have h: \<open>fenced_block fence (js ''{"a":[1]}'') = None\<close>
    by (simp add: str_eval fenced_block_def)
  have p: \<open>JSON_parse (js ''{"a":[1]}'') = Some (JObj [(js ''a'', JArr [JNum 1] [])])\<close>
    by (simp add: str_eval json_eval)
  have c: \<open>cleanJson (js ''{"a":[1]}'') = js ''[1]''\<close>
    by (simp add: str_eval clean_eval)
  show ?thesis using h p c cleanJson_idempotent[OF h] by simp
qed

section \<open>The claims about the reconciliation\<close>

text \<open>
  C1. The specification has a locked activity of the prior itinerary come out of the
  reconciliation with every field equal to its own, whatever the candidate proposed
  for its id, and the code says the same of itself
  (\<^verbatim>\<open>if (old.isLocked) Object.assign(act, old); // Force keep old if locked\<close>).
  \<^verbatim>\<open>Object.assign\<close> writes the fields of the prior activity over the candidate's
  activity and leaves a field that only the candidate has: refineItinerary of
  src/services/geminiService.ts returns the locked activity a1 of the prior itinerary
  with the \<^verbatim>\<open>imageUrl\<close> of the response, which the prior activity does not have.
\<close>

theorem locked_activity_leak:
  "refineItinerary services_geminiService ex_trip (Resolves (Some ex_reply)) = Inr ex_trip_refined \<and>
   all_activities ex_trip = [ex_tour] \<and>
   field ex_tour (js ''isLocked'') = JBool True \<and>
   field ex_tour (js ''imageUrl'') = JUndefined \<and>
   length (all_activities ex_trip_refined) = 1 \<and>
   field (all_activities ex_trip_refined ! 0) (js ''id'') = field ex_tour (js ''id'') \<and>
   field (all_activities ex_trip_refined ! 0) (js ''title'') = field ex_tour (js ''title'') \<and>
   field (all_activities ex_trip_refined ! 0) (js ''imageUrl'') = JStr (js ''palace.jpg'')"
proof -
  have p: "JSON_parse ex_reply =
     Some (JObj [(js ''id'', JStr (js ''gen-9'')), (js ''destination'', JStr (js ''Lisbon'')),
           (js ''title'', JStr (js ''Lisbon weekend'')), (js ''totalBudget'', JNum 500),
           (js ''currency'', JStr (js ''EUR'')),
           (js ''days'',
              JArr [JObj [(js ''date'', JStr (js ''2025-05-01'')), (js ''dayNumber'', JNum 1),
                          (js ''activities'',
                             JArr [JObj [(js ''id'', JStr (js ''a1'')), (js ''time'', JStr (js ''14:00'')),
                                         (js ''title'', JStr (js ''Palace'')),
                                         (js ''description'', JStr (js ''Royal palace'')),
                                         (js ''location'', JStr (js ''Sintra'')),
                                         (js ''type'', JStr (js ''culture'')),
                                         (js ''durationMinutes'', JNum 60), (js ''estimatedCost'', JNum 20),
                                         (js ''isLocked'', JBool False),
                                         (js ''imageUrl'', JStr (js ''palace.jpg''))]] [])]] [])])"
    by (simp add: ex_reply_def str_eval json_eval)
  have n: "ex_reply \<noteq> []" by (simp add: ex_reply_def)
  have r: "refineItinerary services_geminiService ex_trip (Resolves (Some ex_reply)) = Inr ex_trip_refined"
    using p n
    by (simp add: refineItinerary_def response_text_def parse_json_def sanitized_def variants
        ex_trip_def ex_tour_def ex_trip_refined_def svc_eval)
  show ?thesis using r by (simp add: ex_trip_def ex_tour_def ex_trip_refined_def svc_eval)
qed

text \<open>
  C3, as the specification states it: the itinerary that the refinement returns has
  the id of the prior itinerary, fixed inside the refine operation, even when the
  candidate's id differs. No copy of refineItinerary writes the id: the itinerary it
  returns has the id of the candidate.
\<close>

theorem refine_returns_candidate_id:
  \<open>field ex_prior (js ''id'') = JStr (js ''trip-1'') \<and>
   refineItinerary services_geminiService ex_prior (Resolves (Some (js ''{"id":"gen-9","days":[]}''))) =
     Inr (JObj [(js ''id'', JStr (js ''gen-9'')), (js ''days'', JArr [] []),
                (js ''wishlist'', JArr [JObj [(js ''id'', JStr (js ''w1''))]] []),
                (js ''logistics'', JObj [(js ''accommodation'', JStr (js ''Hotel Lisboa''))])]) \<and>
   reconcile services_geminiService ex_prior ex_candidate = Inr ex_refined \<and>
   field ex_candidate (js ''id'') = JStr (js ''gen-9'') \<and>
   field ex_refined (js ''id'') = JStr (js ''gen-9'')\<close>
proof -
  have p: \<open>JSON_parse (js ''{"id":"gen-9","days":[]}'') = Some (JObj [(js ''id'', JStr (js ''gen-9'')), (js ''days'', JArr [] [])])\<close>
    by (simp add: str_eval json_eval)
  have r: \<open>refineItinerary services_geminiService ex_prior (Resolves (Some (js ''{"id":"gen-9","days":[]}''))) =
     Inr (JObj [(js ''id'', JStr (js ''gen-9'')), (js ''days'', JArr [] []),
                (js ''wishlist'', JArr [JObj [(js ''id'', JStr (js ''w1''))]] []),
                (js ''logistics'', JObj [(js ''accommodation'', JStr (js ''Hotel Lisboa''))])])\<close>
    using p by (simp add: ex_data variants run_eval svc_eval js_def)
  show ?thesis using r ex_reconcile by (simp add: ex_data field_def)
qed

text \<open>
  C3, amended: the itinerary that the reconciliation of refineItinerary returns has
  the id of the candidate. It is the handler of the application that keeps the
  identity (\<^verbatim>\<open>updated.id = itinerary.id; // Keep same ID\<close>): whatever the completion
  service answers, the itinerary of the application has after \<open>handleRefine\<close> the id it
  had before, also when the candidate's id differs, and after a successful refinement
  every other field is the one \<open>refineItinerary\<close> returned.
\<close>

theorem refine_keeps_identity:
  "(reconcile v P C = Inr R \<longrightarrow> field R (js ''id'') = field C (js ''id'')) \<and>
   field (itinerary (handleRefine v st c)) (js ''id'') = field (itinerary st) (js ''id'') \<and>
   (truthy (itinerary st) \<and> trim (refinePrompt st) \<noteq> [] \<and> refineItinerary v (itinerary st) c = Inr updated \<longrightarrow>
      (\<forall>k. k \<noteq> js ''id'' \<longrightarrow> field (itinerary (handleRefine v st c)) k = field updated k))"
proof -
  have "field R (js ''id'') = field C (js ''id'')" if "reconcile v P C = Inr R"
    using reconcile_Inr(4)[OF that, of "js ''id''"] by (simp add: trip_keys_def)
  moreover have "field (itinerary (handleRefine v st c)) (js ''id'') = field (itinerary st) (js ''id'') \<and>
   (truthy (itinerary st) \<and> trim (refinePrompt st) \<noteq> [] \<and> refineItinerary v (itinerary st) c = Inr updated \<longrightarrow>
      (\<forall>k. k \<noteq> js ''id'' \<longrightarrow> field (itinerary (handleRefine v st c)) k = field updated k))"
  proof (cases "\<not> truthy (itinerary st) \<or> trim (refinePrompt st) = []")
  case True
  then show ?thesis by (auto simp: handleRefine_def)
next
  case False
  then have t: "truthy (itinerary st)" "trim (refinePrompt st) \<noteq> []" by auto
  show ?thesis
  proof (cases "refineItinerary v (itinerary st) c")
    case (Inl e)
    with False show ?thesis by (simp add: handleRefine_def)
  next
    case (Inr u)
    from refineItinerary_Inr[OF Inr] reconcile_Inr(2) have hu: "holder u" by blast
    from t(1) have g: "get (itinerary st) (js ''id'') = Inr (field (itinerary st) (js ''id''))"
      by (cases "itinerary st") (auto simp: get_def)
    from put_holder[OF hu array_key_id] obtain r where
      r: "put u (js ''id'') (field (itinerary st) (js ''id'')) = Inr r" by blast
    from False Inr g r have "itinerary (handleRefine v st c) = r" by (simp add: handleRefine_def)
    with put_Inr(3,4)[OF r] Inr show ?thesis by auto
  qed
qed
  ultimately show ?thesis by simp
qed

theorem refine_keeps_identity_witness:
  \<open>reconcile services_geminiService ex_prior ex_candidate = Inr ex_refined \<and>
   field ex_refined (js ''id'') = field ex_candidate (js ''id'') \<and>
   refineItinerary services_geminiService (itinerary ex_app) (Resolves (Some (js ''{"id":"gen-9","days":[]}''))) =
     Inr (JObj [(js ''id'', JStr (js ''gen-9'')), (js ''days'', JArr [] []),
                (js ''wishlist'', JArr [JObj [(js ''id'', JStr (js ''w1''))]] []),
                (js ''logistics'', JObj [(js ''accommodation'', JStr (js ''Hotel Lisboa''))])]) \<and>
   field (itinerary ex_app) (js ''id'') = JStr (js ''trip-1'') \<and>
   field (itinerary (handleRefine services_geminiService ex_app (Resolves (Some (js ''{"id":"gen-9","days":[]}''))))) (js ''id'') =
     JStr (js ''trip-1'') \<and>
   field (itinerary (handleRefine services_geminiService ex_app (Resolves (Some (js ''{"id":"gen-9","days":[]}''))))) (js ''days'') =
     JArr [] []\<close>
proof -
  let ?c = \<open>Resolves (Some (js ''{"id":"gen-9","days":[]}''))\<close>
  let ?u = "JObj [(js ''id'', JStr (js ''gen-9'')), (js ''days'', JArr [] []),
                (js ''wishlist'', JArr [JObj [(js ''id'', JStr (js ''w1''))]] []),
                (js ''logistics'', JObj [(js ''accommodation'', JStr (js ''Hotel Lisboa''))])]"
  have p: \<open>JSON_parse (js ''{"id":"gen-9","days":[]}'') = Some (JObj [(js ''id'', JStr (js ''gen-9'')), (js ''days'', JArr [] [])])\<close>
    by (simp add: str_eval json_eval)
  have r: "refineItinerary services_geminiService (itinerary ex_app) ?c = Inr ?u"
    using p by (simp add: ex_app_def ex_data variants run_eval svc_eval js_def)
  have t: "truthy (itinerary ex_app)" "trim (refinePrompt ex_app) \<noteq> []"
    by (simp_all add: ex_app_def ex_data str_eval)
  have i: "field (itinerary ex_app) (js ''id'') = JStr (js ''trip-1'')"
    by (simp add: ex_app_def ex_data field_def)
  from refine_keeps_identity[of services_geminiService ex_prior ex_candidate ex_refined ex_app ?c ?u]
    ex_reconcile r t i
  show ?thesis by (simp add: field_def)
qed




text \<open>
  C7, as the specification states it: the logistics, the wishlist and the trip
  settings (start date, duration, travelers, interests) of the result are always the
  ones of the prior itinerary. Only the first module of
  src/frontend/services/geminiService.ts assigns the trip settings; in
  src/services/geminiService.ts the start date that the candidate brought stays.
\<close>

theorem trip_settings_not_kept:
  "reconcile services_geminiService ex_prior ex_candidate = Inr ex_refined \<and>
   field ex_prior (js ''startDate'') = JStr (js ''2025-05-01'') \<and>
   field ex_candidate (js ''startDate'') = JStr (js ''2030-01-01'') \<and>
   field ex_refined (js ''startDate'') = JStr (js ''2030-01-01'')"
  using ex_reconcile by (simp add: ex_data field_def)

text \<open>
  C7, amended: the logistics and the wishlist of the result are the ones of the prior
  itinerary, whatever the candidate holds there, in every module. The trip settings
  (\<^verbatim>\<open>startDate\<close>, \<^verbatim>\<open>durationDays\<close>, \<^verbatim>\<open>travelers\<close>, \<^verbatim>\<open>interests\<close>) are the ones of the
  prior itinerary in the first module of src/frontend/services/geminiService.ts, the
  one that assigns them, and the ones of the candidate in the other modules.
\<close>

theorem owner_fields_sticky:
  assumes "reconcile v P C = Inr R"
  shows "field R (js ''logistics'') = field P (js ''logistics'') \<and>
         field R (js ''wishlist'') = field P (js ''wishlist'') \<and>
         (keeps_trip_settings v \<longrightarrow>
            field R (js ''startDate'') = field P (js ''startDate'') \<and>
            field R (js ''durationDays'') = field P (js ''durationDays'') \<and>
            field R (js ''travelers'') = field P (js ''travelers'') \<and>
            field R (js ''interests'') = field P (js ''interests'')) \<and>
         (\<not> keeps_trip_settings v \<longrightarrow>
            field R (js ''startDate'') = field C (js ''startDate'') \<and>
            field R (js ''durationDays'') = field C (js ''durationDays'') \<and>
            field R (js ''travelers'') = field C (js ''travelers'') \<and>
            field R (js ''interests'') = field C (js ''interests''))"
  using reconcile_Inr(3)[OF assms] reconcile_Inr(4)[OF assms] by (simp add: trip_keys_def)

theorem owner_fields_sticky_witness:
  "(\<exists>R. reconcile frontend_geminiService ex_prior ex_candidate = Inr R \<and>
        field ex_candidate (js ''startDate'') = JStr (js ''2030-01-01'') \<and>
        field ex_candidate (js ''logistics'') = JNull \<and>
        field R (js ''startDate'') = JStr (js ''2025-05-01'') \<and>
        field R (js ''durationDays'') = JNum 2 \<and>
        field R (js ''travelers'') = JNum 2 \<and>
        field R (js ''interests'') = JArr [JStr (js ''art'')] [] \<and>
        field R (js ''logistics'') = JObj [(js ''accommodation'', JStr (js ''Hotel Lisboa''))] \<and>
        field R (js ''wishlist'') = JArr [JObj [(js ''id'', JStr (js ''w1''))]] []) \<and>
   reconcile unnamed_part_003 ex_prior ex_candidate = Inr ex_refined_003 \<and>
   \<not> keeps_trip_settings unnamed_part_003 \<and>
   field ex_refined_003 (js ''startDate'') = JStr (js ''2030-01-01'')"
proof -
  have "\<exists>R. reconcile frontend_geminiService ex_prior ex_candidate = Inr R"
    by (simp add: ex_data variants svc_eval)
  then obtain R where R: "reconcile frontend_geminiService ex_prior ex_candidate = Inr R" ..
  from owner_fields_sticky[OF R] owner_fields_sticky[OF ex_reconcile_003] R ex_reconcile_003 show ?thesis
    by (simp add: variants field_def ex_prior_def ex_candidate_def)
qed

section \<open>The claims about parsing, rescheduling and analysis\<close>

text \<open>
  C5, as the specification states it: generateItinerary and refineItinerary raise a
  MalformedResponse error when the sanitized text is not valid JSON and also when the
  parsed value lacks \<^verbatim>\<open>destination\<close> or \<^verbatim>\<open>days\<close>. No module looks for
  \<^verbatim>\<open>destination\<close>: in src/services/geminiService.ts both operations return an
  itinerary for \<^verbatim>\<open>{"days":[]}\<close>. The first module of
  src/frontend/services/geminiService.ts visits the days under \<^verbatim>\<open>if (data.days)\<close> and
  returns an itinerary without days for \<^verbatim>\<open>{"destination":"Lisbon"}\<close>.
\<close>

theorem missing_fields_accepted:
  \<open>generateItinerary services_geminiService ex_random ex_input (Resolves (Some (js ''{"days":[]}''))) =
     Inr (JObj [(js ''days'', JArr [] []), (js ''logistics'', logistics ex_input), (js ''wishlist'', JArr [] [])]) \<and>
   refineItinerary services_geminiService ex_prior (Resolves (Some (js ''{"days":[]}''))) =
     Inr (JObj [(js ''days'', JArr [] []),
                (js ''wishlist'', JArr [JObj [(js ''id'', JStr (js ''w1''))]] []),
                (js ''logistics'', JObj [(js ''accommodation'', JStr (js ''Hotel Lisboa''))])]) \<and>
   generateItinerary frontend_geminiService ex_random ex_input (Resolves (Some (js ''{"destination":"Lisbon"}''))) =
     Inr (JObj [(js ''destination'', JStr (js ''Lisbon'')), (js ''logistics'', logistics ex_input),
                (js ''wishlist'', JArr [] []), (js ''startDate'', JStr (js ''2025-05-01'')),
                (js ''durationDays'', JNum 2), (js ''travelers'', JNum 2),
                (js ''interests'', JArr [JStr (js ''art'')] [])])\<close>
proof -
  have p1: \<open>JSON_parse (js ''{"days":[]}'') = Some (JObj [(js ''days'', JArr [] [])])\<close>
    by (simp add: str_eval json_eval)
  have c2: \<open>cleanJson (js ''{"destination":"Lisbon"}'') = js ''{"destination":"Lisbon"}''\<close>
    by (simp add: str_eval clean_eval)
  have p2: \<open>JSON_parse (js ''{"destination":"Lisbon"}'') = Some (JObj [(js ''destination'', JStr (js ''Lisbon''))])\<close>
    by (simp add: str_eval json_eval)
  have g1: \<open>generateItinerary services_geminiService ex_random ex_input (Resolves (Some (js ''{"days":[]}''))) =
     Inr (JObj [(js ''days'', JArr [] []), (js ''logistics'', logistics ex_input), (js ''wishlist'', JArr [] [])])\<close>
    using p1 by (simp add: ex_input_def variants run_eval svc_eval js_def)
  have r1: \<open>refineItinerary services_geminiService ex_prior (Resolves (Some (js ''{"days":[]}''))) =
     Inr (JObj [(js ''days'', JArr [] []),
                (js ''wishlist'', JArr [JObj [(js ''id'', JStr (js ''w1''))]] []),
                (js ''logistics'', JObj [(js ''accommodation'', JStr (js ''Hotel Lisboa''))])])\<close>
    using p1 by (simp add: ex_data variants run_eval svc_eval js_def)
  have g2: \<open>generateItinerary frontend_geminiService ex_random ex_input (Resolves (Some (js ''{"destination":"Lisbon"}''))) =
     Inr (JObj [(js ''destination'', JStr (js ''Lisbon'')), (js ''logistics'', logistics ex_input),
                (js ''wishlist'', JArr [] []), (js ''startDate'', JStr (js ''2025-05-01'')),
                (js ''durationDays'', JNum 2), (js ''travelers'', JNum 2),
                (js ''interests'', JArr [JStr (js ''art'')] [])])\<close>
    using p2 c2 by (simp add: ex_input_def variants run_eval svc_eval js_def)
  show ?thesis using g1 r1 g2 by simp
qed

text \<open>
  C5, amended: when the response has a text and the sanitized text is not valid JSON,
  generateItinerary and refineItinerary return no itinerary: they raise the error of
  \<^verbatim>\<open>JSON.parse\<close>, which generateItinerary of the first module of
  src/frontend/services/geminiService.ts replaces by "Failed to parse AI response".
  (The form must be one from which the prompt can be built.)
\<close>

theorem parse_failure_raises:
  assumes "JSON_parse (sanitized v text) = None" and "text \<noteq> []" and "generate_prompt input = Inr ()"
  shows "generateItinerary v rnd input (Resolves (Some text)) =
           Inl (if wraps_parse_error v then FailedToParse else SyntaxError) \<and>
         refineItinerary v P (Resolves (Some text)) = Inl SyntaxError"
  using assms
  by (simp add: generateItinerary_def refineItinerary_def response_text_def parse_json_def)

theorem parse_failure_raises_witness:
  "generateItinerary frontend_geminiService ex_random ex_input (Resolves (Some (js ''Sorry, I cannot help.''))) =
     Inl FailedToParse \<and>
   refineItinerary frontend_geminiService ex_prior (Resolves (Some (js ''Sorry, I cannot help.''))) =
     Inl SyntaxError"
proof -
  have c: "cleanJson (js ''Sorry, I cannot help.'') = js ''Sorry, I cannot help.''"
    by (simp add: str_eval clean_eval)
  have p: "JSON_parse (js ''Sorry, I cannot help.'') = None"
    by (simp add: str_eval json_eval)
  have h1: "JSON_parse (sanitized frontend_geminiService (js ''Sorry, I cannot help.'')) = None"
    using c p by (simp add: sanitized_def variants)
  have h2: "js ''Sorry, I cannot help.'' \<noteq> []" by simp
  have h3: "generate_prompt ex_input = Inr ()"
    by (simp add: ex_input_def generate_prompt_def get_def field_def nullish_def bindE_def)
  from parse_failure_raises[OF h1 h2 h3, of ex_random ex_prior]
  show ?thesis by (simp add: variants)
qed

text \<open>
  C6. For every list of activities (none of them \<^verbatim>\<open>null\<close> or \<^verbatim>\<open>undefined\<close>, as the
  type \<^verbatim>\<open>Activity[]\<close> has it) and every previous location, recalculateDaySchedule
  returns the list it was given when the completion call is rejected, when the
  response has no text or an empty one, when the sanitized text does not parse, and
  when anything else fails inside the \<^verbatim>\<open>try\<close> block.
\<close>

theorem reschedule_fails_open:
  assumes "\<forall>a\<in>set activities. \<not> nullish a"
  shows "recalculateDaySchedule activities loc Rejects = Inr activities \<and>
         recalculateDaySchedule activities loc (Resolves None) = Inr activities \<and>
         recalculateDaySchedule activities loc (Resolves (Some [])) = Inr activities \<and>
         (JSON_parse (cleanJson text) = None \<longrightarrow>
            recalculateDaySchedule activities loc (Resolves (Some text)) = Inr activities) \<and>
         (reschedule_try activities c = Inl e \<longrightarrow> recalculateDaySchedule activities loc c = Inr activities)"
proof -
  from assms have n: "\<not> list_ex nullish activities" by (simp add: list_ex_iff)
  have "JSON_parse (cleanJson text) = None \<Longrightarrow> \<exists>e. reschedule_try activities (Resolves (Some text)) = Inl e"
    by (simp add: reschedule_try_def response_text_def parse_json_def)
  with n show ?thesis
    by (auto simp: recalculateDaySchedule_def reschedule_try_def response_text_def)
qed

theorem reschedule_fails_open_witness:
  "recalculateDaySchedule ex_day (JStr (js ''Hotel Lisboa'')) Rejects = Inr ex_day \<and>
   recalculateDaySchedule ex_day (JStr (js ''Hotel Lisboa'')) (Resolves None) = Inr ex_day \<and>
   recalculateDaySchedule ex_day (JStr (js ''Hotel Lisboa'')) (Resolves (Some [])) = Inr ex_day \<and>
   recalculateDaySchedule ex_day (JStr (js ''Hotel Lisboa'')) (Resolves (Some (js ''No route found.''))) = Inr ex_day \<and>
   reschedule_try ex_day (Resolves (Some (js ''{}''))) = Inl TypeError \<and>
   recalculateDaySchedule ex_day (JStr (js ''Hotel Lisboa'')) (Resolves (Some (js ''{}''))) = Inr ex_day"
proof -
  have h: "\<forall>a\<in>set ex_day. \<not> nullish a" by (simp add: ex_day_def nullish_def)
  have c: "cleanJson (js ''No route found.'') = js ''No route found.''" by (simp add: str_eval clean_eval)
  have p: "JSON_parse (js ''No route found.'') = None" by (simp add: str_eval json_eval)
  have c2: "cleanJson (js ''{}'') = js ''{}''" by (simp add: str_eval clean_eval)
  have p2: "JSON_parse (js ''{}'') = Some (JObj [])" by (simp add: str_eval json_eval)
  have t: "reschedule_try ex_day (Resolves (Some (js ''{}''))) = Inl TypeError"
    using c2 p2 by (simp add: reschedule_try_def response_text_def parse_json_def)
  from reschedule_fails_open[OF h, of "JStr (js ''Hotel Lisboa'')" "js ''No route found.''"
         "Resolves (Some (js ''{}''))" TypeError] c p t
  show ?thesis by simp
qed

text \<open>
  C8. For every list of activities (objects, as the type \<^verbatim>\<open>Activity[]\<close> has it),
  recalculateDaySchedule returns a list of the same length; the activity at each
  position has the id of the one given at that position and differs from it at most
  in \<^verbatim>\<open>time\<close> and \<^verbatim>\<open>transportToNext\<close>; and an activity whose id no update of the
  parsed response has is returned as it was given.
\<close>

theorem reschedule_frame:
  assumes "\<forall>a\<in>set activities. \<exists>ps. a = JObj ps"
  shows "\<exists>out. recalculateDaySchedule activities loc c = Inr out \<and>
           length out = length activities \<and>
           (\<forall>i<length activities.
              field (out ! i) (js ''id'') = field (activities ! i) (js ''id'') \<and>
              (\<forall>k. k \<noteq> js ''time'' \<and> k \<noteq> js ''transportToNext'' \<longrightarrow>
                   field (out ! i) k = field (activities ! i) k) \<and>
              (\<forall>text us ps.
                 c = Resolves (Some text) \<and> JSON_parse (cleanJson text) = Some (JArr us ps) \<and>
                 (\<forall>u\<in>set us. \<not> strict_eq (field u (js ''id'')) (field (activities ! i) (js ''id''))) \<longrightarrow>
                 out ! i = activities ! i))"
proof (cases "reschedule_try activities c")
  case (Inl e)
  with not_nullish_obj[OF assms] show ?thesis by (simp add: recalculateDaySchedule_def)
next
  case (Inr out)
  from reschedule_try_Inr[OF Inr] obtain tx us ps where
    c: "c = Resolves (Some tx)" "JSON_parse (cleanJson tx) = Some (JArr us ps)"
    and l: "list_all2 (\<lambda>a r. reschedule_activity us a = Inr r) activities out" by blast
  have len: "length out = length activities" using l by (simp add: list_all2_lengthD)
  have at: "reschedule_activity us (activities ! i) = Inr (out ! i)" if "i < length activities" for i
    using l that by (simp add: list_all2_conv_all_nth)
  have "field (out ! i) (js ''id'') = field (activities ! i) (js ''id'') \<and>
        (\<forall>k. k \<noteq> js ''time'' \<and> k \<noteq> js ''transportToNext'' \<longrightarrow> field (out ! i) k = field (activities ! i) k) \<and>
        (\<forall>text us ps.
           c = Resolves (Some text) \<and> JSON_parse (cleanJson text) = Some (JArr us ps) \<and>
           (\<forall>u\<in>set us. \<not> strict_eq (field u (js ''id'')) (field (activities ! i) (js ''id''))) \<longrightarrow>
           out ! i = activities ! i)" if i: "i < length activities" for i
  proof -
    from assms i obtain qs where qs: "activities ! i = JObj qs" by (metis nth_mem)
    note r = reschedule_activity_Inr[OF at[OF i, unfolded qs]]
    from r(1)[of "js ''id''"] r(1) r(2) qs c show ?thesis by auto
  qed
  with Inr len not_nullish_obj[OF assms] show ?thesis by (simp add: recalculateDaySchedule_def)
qed

theorem reschedule_frame_witness:
  \<open>recalculateDaySchedule ex_day (JStr (js ''Hotel Lisboa''))
     (Resolves (Some (js ''[{"id":"a1","time":"10:30","transportToNext":"Walk: 5m (Free)"}]''))) =
   Inr [JObj [(js ''id'', JStr (js ''a1'')), (js ''time'', JStr (js ''10:30'')),
              (js ''imageUrl'', JStr (js ''castle.jpg'')), (js ''userNotes'', JStr (js ''Bring cash'')),
              (js ''transportToNext'', JStr (js ''Walk: 5m (Free)''))],
        JObj [(js ''id'', JStr (js ''a2'')), (js ''time'', JStr (js ''11:00'')),
              (js ''actualCost'', JNum 12)]]\<close>
proof -
  let ?t = \<open>js ''[{"id":"a1","time":"10:30","transportToNext":"Walk: 5m (Free)"}]''\<close>
  let ?us = "[JObj [(js ''id'', JStr (js ''a1'')), (js ''time'', JStr (js ''10:30'')),
                    (js ''transportToNext'', JStr (js ''Walk: 5m (Free)''))]]"
  have h: "\<forall>a\<in>set ex_day. \<exists>ps. a = JObj ps" by (simp add: ex_day_def)
  have c: "cleanJson ?t = ?t" by (simp add: str_eval clean_eval)
  have p: "JSON_parse ?t = Some (JArr ?us [])" by (simp add: str_eval json_eval)
  from reschedule_frame[OF h, of "JStr (js ''Hotel Lisboa'')" "Resolves (Some ?t)"]
  obtain out where o: "recalculateDaySchedule ex_day (JStr (js ''Hotel Lisboa'')) (Resolves (Some ?t)) = Inr out"
    by blast
  moreover have "recalculateDaySchedule ex_day (JStr (js ''Hotel Lisboa'')) (Resolves (Some ?t)) =
     Inr [JObj [(js ''id'', JStr (js ''a1'')), (js ''time'', JStr (js ''10:30'')),
              (js ''imageUrl'', JStr (js ''castle.jpg'')), (js ''userNotes'', JStr (js ''Bring cash'')),
              (js ''transportToNext'', JStr (js ''Walk: 5m (Free)''))],
        JObj [(js ''id'', JStr (js ''a2'')), (js ''time'', JStr (js ''11:00'')),
              (js ''actualCost'', JNum 12)]]"
    using c p by (simp add: ex_day_def run_eval svc_eval js_def)
  ultimately show ?thesis by simp
qed

text \<open>
  C2, as the specification states it: analyzeSocialContent never rejects, and the
  analysis is the placeholder whenever the completion call fails. The call is awaited
  before the \<^verbatim>\<open>try\<close> block, so its rejection is the rejection of analyzeSocialContent
  (the callers catch it and show "Could not analyze link.").
\<close>

theorem analysis_rejects:
  "analyzeSocialContent services_geminiService (js ''1700000000000'') (js ''https://example.com/reel/1'') Rejects =
     Inl AIRejected \<and>
   analyzeSocialContent frontend_geminiService (js ''1700000000000'') (js ''https://example.com/reel/1'') Rejects =
     Inl AIRejected"
  by (simp add: analyzeSocialContent_def)

text \<open>
  C2, amended: whenever the completion call returns a response, analyzeSocialContent
  resolves to an item that holds the content it was given, and the analysis of the
  item is the fixed placeholder when the text of the response (sanitized, in the
  modules that sanitize it) does not parse as JSON or is missing.
\<close>

theorem analysis_resolves_on_response:
  "\<exists>item. analyzeSocialContent v now content (Resolves text) = Inr item \<and>
          field item (js ''content'') = JStr content \<and>
          ((\<forall>t. text = Some t \<longrightarrow> JSON_parse (if cleans_analysis v then cleanJson t else t) = None) \<longrightarrow>
             field item (js ''analysis'') = placeholder)"
proof -
  have "(case parse_analysis v text of Inl e \<Rightarrow> placeholder | Inr a \<Rightarrow> a) = placeholder"
    if "\<forall>t. text = Some t \<longrightarrow> JSON_parse (if cleans_analysis v then cleanJson t else t) = None"
  proof -
    from that have "\<exists>e. parse_analysis v text = Inl e"
      by (cases "text") (auto simp: parse_analysis_def parse_json_def parse_undefined)
    then show ?thesis by auto
  qed
  then show ?thesis
    by (simp add: analyzeSocialContent_def field_def)
qed

theorem analysis_resolves_on_response_witness:
  "analyzeSocialContent frontend_geminiService (js ''1700000000000'') (js ''https://example.com/reel/1'')
     (Resolves (Some (js ''I could not open the link.''))) =
   Inr (JObj [(js ''id'', JStr (js ''1700000000000'')),
              (js ''content'', JStr (js ''https://example.com/reel/1'')),
              (js ''type'', JStr (js ''url'')),
              (js ''analysis'', placeholder)])"
proof -
  let ?t = "js ''I could not open the link.''"
  have c: "cleanJson ?t = ?t" by (simp add: str_eval clean_eval)
  have p: "JSON_parse ?t = None" by (simp add: str_eval json_eval)
  have h: "\<forall>t. Some ?t = Some t \<longrightarrow> JSON_parse (if cleans_analysis frontend_geminiService then cleanJson t else t) = None"
    using c p by (simp add: variants)
  from analysis_resolves_on_response[of frontend_geminiService "js ''1700000000000''"
         "js ''https://example.com/reel/1''" "Some ?t"] h
  show ?thesis by (auto simp: analyzeSocialContent_def field_def js_def)
qed

end
